theory Spec2Isabelle
  imports Complex_Main "HOL-Library.Word" "HOL-Library.Char_ord" "HOL-Library.List_Lexorder"
    "HOL-Library.AList"
begin

section \<open>The usage-examples module and the names of the conversion engine\<close>

text \<open>
  \<^verbatim>\<open>example_usage.py\<close> starts with
  \<^verbatim>\<open>from convert_heic import (convert_images, convert_heic_to_image, convert_heic_to_pdf,
  save_as_image, get_heic_files, setup_logging)\<close>.
  A \<^verbatim>\<open>from m import a, b, ...\<close> statement looks the names up in the namespace of the
  loaded module, in the order written, and raises \<^verbatim>\<open>ImportError\<close> at the first name
  that the module does not bind. The statement runs when the script is loaded, before
  its \<^verbatim>\<open>main\<close> prints the menu.
\<close>

datatype py_error =
    ImportError string
  | ZeroDivisionError
  | OSError string
  | SystemExit int

text \<open>The functions that \<^verbatim>\<open>convert_heic.py\<close> defines at module level, in source order.\<close>

definition convert_heic_functions :: "string list" where
  "convert_heic_functions =
    [''setup_logging'', ''clear_output_folder'', ''get_image_files'',
     ''convert_image_to_format'', ''save_as_image'', ''convert_image_to_pdf'',
     ''convert_images'', ''main'']"

text \<open>The names that its own import statements bind in the module namespace.\<close>

definition convert_heic_imported :: "string list" where
  "convert_heic_imported =
    [''os'', ''glob'', ''logging'', ''Path'', ''datetime'', ''argparse'', ''sys'',
     ''register_heif_opener'', ''Image'', ''letter'', ''A4'', ''canvas'', ''ImageReader'']"

definition convert_heic_namespace :: "string list" where
  "convert_heic_namespace = convert_heic_imported @ convert_heic_functions"

text \<open>The names listed in the import statement of \<^verbatim>\<open>example_usage.py\<close> (lines 14 to 21).\<close>

definition example_usage_imports :: "string list" where
  "example_usage_imports =
    [''convert_images'', ''convert_heic_to_image'', ''convert_heic_to_pdf'',
     ''save_as_image'', ''get_heic_files'', ''setup_logging'']"

fun import_from :: "string list \<Rightarrow> string list \<Rightarrow> py_error + string list" where
  "import_from namespace [] = Inr []"
| "import_from namespace (n # ns) =
     (if n \<in> set namespace
      then (case import_from namespace ns of Inl e \<Rightarrow> Inl e | Inr bound \<Rightarrow> Inr (n # bound))
      else Inl (ImportError n))"

text \<open>The six scenarios and the dispatch of \<^verbatim>\<open>main\<close> on the menu choice.\<close>

datatype scenario =
    example_1_basic_conversion
  | example_2_jpg_with_quality
  | example_3_pdf_a4
  | example_4_single_file
  | example_5_custom_folders
  | example_6_batch_processing

definition example_main :: "string \<Rightarrow> scenario list" where
  "example_main choice =
    (if choice = ''1'' then [example_1_basic_conversion]
     else if choice = ''2'' then [example_2_jpg_with_quality]
     else if choice = ''3'' then [example_3_pdf_a4]
     else if choice = ''4'' then [example_4_single_file]
     else if choice = ''5'' then [example_5_custom_folders]
     else if choice = ''6'' then [example_6_batch_processing]
     else if choice = ''0'' then
       [example_1_basic_conversion, example_2_jpg_with_quality, example_3_pdf_a4,
        example_4_single_file, example_6_batch_processing]
     else [])"

text \<open>
  Running the script: the import statement first, then \<^verbatim>\<open>main\<close> with the line read from
  standard input (already stripped). The result is the list of scenarios executed, or the
  exception that ended the script.
\<close>

definition run_example_usage :: "string \<Rightarrow> py_error + scenario list" where
  "run_example_usage choice =
    (case import_from convert_heic_namespace example_usage_imports of
       Inl e \<Rightarrow> Inl e
     | Inr bound \<Rightarrow> Inr (example_main choice))"

section \<open>Strings and paths\<close>

text \<open>
  File names and paths are byte strings. \<^verbatim>\<open>str.lower\<close> and \<^verbatim>\<open>str.upper\<close> are modelled on
  the ASCII letters, which is all the extensions, format names and \<^verbatim>\<open>readme.md\<close> contain;
  every other character is left as it is.
\<close>

definition ascii_uppercase :: string where
  "ascii_uppercase = ''ABCDEFGHIJKLMNOPQRSTUVWXYZ''"

definition ascii_lowercase :: string where
  "ascii_lowercase = ''abcdefghijklmnopqrstuvwxyz''"

definition lower_char :: "char \<Rightarrow> char" where
  "lower_char c = (case map_of (zip ascii_uppercase ascii_lowercase) c of Some d \<Rightarrow> d | None \<Rightarrow> c)"

definition upper_char :: "char \<Rightarrow> char" where
  "upper_char c = (case map_of (zip ascii_lowercase ascii_uppercase) c of Some d \<Rightarrow> d | None \<Rightarrow> c)"

definition lower :: "string \<Rightarrow> string" where
  "lower s = map lower_char s"

definition upper :: "string \<Rightarrow> string" where
  "upper s = map upper_char s"

definition endswith :: "string \<Rightarrow> string \<Rightarrow> bool" where
  "endswith s suffix = (length suffix \<le> length s \<and> drop (length s - length suffix) s = suffix)"

definition sep :: char where
  "sep = CHR ''/''"

text \<open>\<^verbatim>\<open>s.rfind(c)\<close>: the last index of \<open>c\<close> in \<open>s\<close>, or \<open>-1\<close>.\<close>

fun rfind :: "string \<Rightarrow> char \<Rightarrow> int" where
  "rfind [] c = -1"
| "rfind (x # xs) c =
     (let r = rfind xs c in if r \<ge> 0 then r + 1 else if x = c then 0 else -1)"

text \<open>\<^verbatim>\<open>posixpath.join(a, b)\<close> for two arguments.\<close>

definition path_join :: "string \<Rightarrow> string \<Rightarrow> string" where
  "path_join a b =
    (if b \<noteq> [] \<and> hd b = sep then b
     else if a = [] \<or> last a = sep then a @ b
     else a @ [sep] @ b)"

text \<open>\<^verbatim>\<open>s.rstrip('/')\<close>.\<close>

definition rstrip_sep :: "string \<Rightarrow> string" where
  "rstrip_sep s = rev (dropWhile (\<lambda>c. c = sep) (rev s))"

text \<open>\<^verbatim>\<open>posixpath.split(p)\<close>: head and tail around the last separator.\<close>

definition path_split :: "string \<Rightarrow> string \<times> string" where
  "path_split p =
    (let i = nat (rfind p sep + 1); head = take i p; tail = drop i p
     in (if head \<noteq> [] \<and> head \<noteq> replicate (length head) sep then rstrip_sep head else head, tail))"

definition basename :: "string \<Rightarrow> string" where
  "basename p = drop (nat (rfind p sep + 1)) p"

text \<open>
  \<^verbatim>\<open>posixpath.splitext(p)\<close>: the extension starts at the last dot of the last component,
  unless only dots precede it there.
\<close>

definition splitext :: "string \<Rightarrow> string \<times> string" where
  "splitext p =
    (let sepIndex = rfind p sep; dotIndex = rfind p (CHR ''.'')
     in if dotIndex > sepIndex
           \<and> list_ex (\<lambda>c. c \<noteq> CHR ''.'') (drop (nat (sepIndex + 1)) (take (nat dotIndex) p))
        then (take (nat dotIndex) p, drop (nat dotIndex) p)
        else (p, []))"

section \<open>The file system\<close>

text \<open>
  The file system is an association list from paths to nodes; the first binding of a
  path counts. A path names a node by its spelling: the model follows \<^verbatim>\<open>os.path.join\<close>
  and strips trailing separators when it looks a path up, and does not resolve
  \<^verbatim>\<open>.\<close>, \<^verbatim>\<open>..\<close>, repeated separators or links. A regular file carries its bytes and a flag
  \<open>locked\<close>: the operating system refuses to delete or overwrite a locked file (missing
  permission, a file held open elsewhere).
\<close>

type_synonym byte = "8 word"

datatype node = File (file_data: "byte list") (locked: bool) | Dir

type_synonym filesystem = "(string \<times> node) list"

definition stat :: "filesystem \<Rightarrow> string \<Rightarrow> node option" where
  "stat fs p =
    (if p = [] then None
     else if rstrip_sep p = [] then Some Dir
     else (case map_of fs (rstrip_sep p) of
             None \<Rightarrow> None
           | Some Dir \<Rightarrow> Some Dir
           | Some (File d l) \<Rightarrow> if rstrip_sep p = p then Some (File d l) else None))"

definition path_exists :: "filesystem \<Rightarrow> string \<Rightarrow> bool" where
  "path_exists fs p = (stat fs p \<noteq> None)"

definition isdir :: "filesystem \<Rightarrow> string \<Rightarrow> bool" where
  "isdir fs p = (stat fs p = Some Dir)"

text \<open>
  The name under which the path \<open>p\<close> is a direct entry of the directory \<open>d\<close>: a single
  non-empty component \<open>n\<close> with \<open>p = path_join d n\<close>.
\<close>

definition dir_prefix :: "string \<Rightarrow> string" where
  "dir_prefix d = (if d = [] \<or> last d = sep then d else d @ [sep])"

definition entry_name :: "string \<Rightarrow> string \<Rightarrow> string option" where
  "entry_name d p =
    (let pre = dir_prefix d; n = drop (length pre) p
     in if take (length pre) p = pre \<and> n \<noteq> [] \<and> sep \<notin> set n then Some n else None)"

definition entries :: "filesystem \<Rightarrow> string \<Rightarrow> string list" where
  "entries fs d = List.map_filter (\<lambda>(p, _). entry_name d p) fs"

text \<open>\<^verbatim>\<open>os.listdir(d)\<close>, in the order of the association list.\<close>

definition listdir :: "filesystem \<Rightarrow> string \<Rightarrow> py_error + string list" where
  "listdir fs d = (if isdir fs d then Inr (entries fs d) else Inl (OSError ''listdir''))"

text \<open>\<^verbatim>\<open>os.remove(p)\<close>: only an unlocked regular file can be removed.\<close>

definition os_remove :: "filesystem \<Rightarrow> string \<Rightarrow> py_error + filesystem" where
  "os_remove fs p =
    (case stat fs p of
       Some (File d l) \<Rightarrow> if l then Inl (OSError ''PermissionError'') else Inr (AList.delete p fs)
     | Some Dir \<Rightarrow> Inl (OSError ''IsADirectoryError'')
     | None \<Rightarrow> Inl (OSError ''FileNotFoundError''))"

text \<open>
  \<^verbatim>\<open>os.makedirs(p, exist_ok=True)\<close>: binds the path as a directory unless it is one already;
  fails when a regular file has that name. Missing ancestors are not bound one by one,
  since no operation of the engine looks at them.
\<close>

definition makedirs :: "filesystem \<Rightarrow> string \<Rightarrow> py_error + filesystem" where
  "makedirs fs p =
    (if p = [] then Inl (OSError ''FileNotFoundError'')
     else if rstrip_sep p = [] then Inr fs
     else (case map_of fs (rstrip_sep p) of
             None \<Rightarrow> Inr (AList.update (rstrip_sep p) Dir fs)
           | Some Dir \<Rightarrow> Inr fs
           | Some (File d l) \<Rightarrow> Inl (OSError ''FileExistsError'')))"

text \<open>Opening \<open>p\<close> for writing and storing \<open>data\<close> there: creates or replaces a regular file.\<close>

definition write_file :: "filesystem \<Rightarrow> string \<Rightarrow> byte list \<Rightarrow> py_error + filesystem" where
  "write_file fs p data =
    (if p = [] \<or> last p = sep then Inl (OSError ''IsADirectoryError'')
     else (case map_of fs p of
             Some Dir \<Rightarrow> Inl (OSError ''IsADirectoryError'')
           | Some (File d l) \<Rightarrow>
               if l then Inl (OSError ''PermissionError'') else Inr (AList.update p (File data False) fs)
           | None \<Rightarrow> Inr (AList.update p (File data False) fs)))"

text \<open>Reading the bytes of a regular file.\<close>

definition read_file :: "filesystem \<Rightarrow> string \<Rightarrow> py_error + byte list" where
  "read_file fs p =
    (case stat fs p of
       Some (File d l) \<Rightarrow> Inr d
     | Some Dir \<Rightarrow> Inl (OSError ''IsADirectoryError'')
     | None \<Rightarrow> Inl (OSError ''FileNotFoundError''))"

text \<open>
  How a saving call of a library ends: \<open>Saved data\<close> when the complete file has been
  written; \<open>Raised None\<close> when the call raised before it opened the output file;
  \<open>Raised (Some partial)\<close> when it raised after it had opened the output file for
  writing, with the bytes it had written by then.
\<close>

datatype save_result = Saved "byte list" | Raised "byte list option"

text \<open>
  The effect of such a call on the file system, and whether it returned. Opening the
  output file for writing truncates a file that is there, so a call that raises later
  leaves the partial bytes in its place; no temporary file is used. A file that the call
  created itself and could not complete is removed again when \<open>cleanup\<close> holds.
\<close>

definition library_save :: "filesystem \<Rightarrow> string \<Rightarrow> bool \<Rightarrow> save_result \<Rightarrow> filesystem \<times> bool" where
  "library_save fs p cleanup r =
    (case r of
       Saved data \<Rightarrow>
         (case write_file fs p data of Inl e \<Rightarrow> (fs, False) | Inr fs' \<Rightarrow> (fs', True))
     | Raised None \<Rightarrow> (fs, False)
     | Raised (Some partial) \<Rightarrow>
         (case write_file fs p partial of
            Inl e \<Rightarrow> (fs, False)
          | Inr fs' \<Rightarrow> (if cleanup \<and> map_of fs p = None then AList.delete p fs' else fs', False)))"

section \<open>Output folder clearing\<close>

definition extensions_to_remove :: "string list" where
  "extensions_to_remove =
    [''.png'', ''.jpg'', ''.jpeg'', ''.pdf'', ''.PNG'', ''.JPG'', ''.JPEG'', ''.PDF'']"

text \<open>
  The body of the \<^verbatim>\<open>for filename in os.listdir(output_folder)\<close> loop of
  \<^verbatim>\<open>clear_output_folder\<close>, with the file system and \<^verbatim>\<open>removed_count\<close> as loop state. An
  exception of \<^verbatim>\<open>os.remove\<close> is caught: the entry stays and is not counted.
\<close>

fun clear_loop :: "string \<Rightarrow> bool \<Rightarrow> string list \<Rightarrow> filesystem \<times> nat \<Rightarrow> filesystem \<times> nat" where
  "clear_loop output_folder keep_readme [] (fs, removed_count) = (fs, removed_count)"
| "clear_loop output_folder keep_readme (filename # rest) (fs, removed_count) =
     (let filepath = path_join output_folder filename
      in if isdir fs filepath then clear_loop output_folder keep_readme rest (fs, removed_count)
         else if keep_readme \<and> lower filename = ''readme.md''
           then clear_loop output_folder keep_readme rest (fs, removed_count)
         else if list_ex (\<lambda>ext. endswith (lower filename) (lower ext)) extensions_to_remove
           then (case os_remove fs filepath of
                   Inr fs' \<Rightarrow> clear_loop output_folder keep_readme rest (fs', removed_count + 1)
                 | Inl e \<Rightarrow> clear_loop output_folder keep_readme rest (fs, removed_count))
         else clear_loop output_folder keep_readme rest (fs, removed_count))"

text \<open>
  \<^verbatim>\<open>clear_output_folder(output_folder, keep_readme)\<close>. The result is the file system after
  the call and the final \<^verbatim>\<open>removed_count\<close>, which the function logs (``Cleared n file(s)''
  or ``already clean''); on the early return for a missing folder nothing is logged and
  the count is 0. An exception of \<^verbatim>\<open>os.listdir\<close> is not caught.
\<close>

definition clear_output_folder :: "filesystem \<Rightarrow> string \<Rightarrow> bool \<Rightarrow> py_error + filesystem \<times> nat" where
  "clear_output_folder fs output_folder keep_readme =
    (if \<not> path_exists fs output_folder then Inr (fs, 0)
     else (case listdir fs output_folder of
             Inl e \<Rightarrow> Inl e
           | Inr names \<Rightarrow> Inr (clear_loop output_folder keep_readme names (fs, 0))))"

section \<open>Images and the library boundary\<close>

text \<open>
  A decoded image as the imaging library presents it: the mode string, the size
  (width, height), one list of band values per pixel in row-major order (\<open>[r, g, b, a]\<close> in
  mode RGBA, \<open>[l, a]\<close> in mode LA, \<open>[index]\<close> in mode P, \<open>[r, g, b]\<close> in mode RGB), the
  palette of a mode P image as RGBA entries (the transparency information already merged
  into the alpha value), and the \<^verbatim>\<open>exif\<close> entry of \<^verbatim>\<open>img.info\<close>.
\<close>

record image =
  mode :: string
  im_size :: "nat \<times> nat"
  pixels :: "byte list list"
  palette :: "byte list list"
  info_exif :: "byte list option"

definition bands :: "string \<Rightarrow> nat" where
  "bands m = (if m = ''RGBA'' then 4 else if m = ''RGB'' then 3 else if m = ''LA'' then 2 else 1)"

definition valid_image :: "image \<Rightarrow> bool" where
  "valid_image img =
    (length (pixels img) = fst (im_size img) * snd (im_size img)
     \<and> list_all (\<lambda>px. length px = bands (mode img)) (pixels img)
     \<and> list_all (\<lambda>entry. length entry = 4) (palette img))"

text \<open>The keyword arguments that \<^verbatim>\<open>save_as_image\<close> passes to \<^verbatim>\<open>img.save\<close>.\<close>

record save_kwargs =
  kw_format :: string
  kw_quality :: "int option"
  kw_optimize :: bool
  kw_subsampling :: "int option"
  kw_progressive :: "bool option"
  kw_compress_level :: "int option"
  kw_exif :: "byte list option"

text \<open>
  What \<^verbatim>\<open>convert_image_to_pdf\<close> hands to the PDF library: a canvas of the page size with one
  \<^verbatim>\<open>drawImage(image, x, y, width, height)\<close>. Python's floats are idealised as reals.
\<close>

record pdf_page =
  pagesize :: "real \<times> real"
  drawn :: image
  draw_x :: real
  draw_y :: real
  draw_width :: real
  draw_height :: real

text \<open>
  The third-party operations whose inside the engine does not see are parameters of the
  model: decoding the bytes of a file (\<^verbatim>\<open>Image.open\<close> and the loading it triggers; \<open>None\<close>
  when it raises), mode conversions other than palette to RGBA, the encoders behind
  \<^verbatim>\<open>img.save\<close>, the PDF writer behind \<^verbatim>\<open>canvas.save\<close>, whether \<^verbatim>\<open>img.save\<close> removes a file
  that it created and could not complete (releases of the imaging library differ), and
  the directories that \<^verbatim>\<open>glob\<close> expands a directory part with wildcard characters to.
\<close>

record library =
  Image_open :: "byte list \<Rightarrow> image option"
  Image_convert :: "image \<Rightarrow> string \<Rightarrow> image option"
  Image_save :: "image \<Rightarrow> save_kwargs \<Rightarrow> save_result"
  Canvas_save :: "pdf_page \<Rightarrow> save_result"
  removes_created :: bool
  glob_dirs :: "filesystem \<Rightarrow> string \<Rightarrow> string list"

section \<open>Image file discovery\<close>

definition has_magic :: "string \<Rightarrow> bool" where
  "has_magic s = list_ex (\<lambda>c. c \<in> set ''*?['') s"

definition ishidden :: "string \<Rightarrow> bool" where
  "ishidden name = (name \<noteq> [] \<and> hd name = CHR ''.'')"

text \<open>
  \<^verbatim>\<open>fnmatch\<close> of a name against a pattern of literal characters, \<^verbatim>\<open>*\<close> and \<^verbatim>\<open>?\<close>, comparing
  characters as they are (POSIX). Bracket expressions are not modelled; none of the
  engine's patterns has one.
\<close>

fun fnmatch :: "string \<Rightarrow> string \<Rightarrow> bool" where
  "fnmatch [] [] = True"
| "fnmatch (c # cs) [] = False"
| "fnmatch [] (p # ps) = (p = CHR ''*'' \<and> fnmatch [] ps)"
| "fnmatch (c # cs) (p # ps) =
     (if p = CHR ''*'' then fnmatch (c # cs) ps \<or> fnmatch cs (p # ps)
      else (p = CHR ''?'' \<or> p = c) \<and> fnmatch cs ps)"

text \<open>
  \<^verbatim>\<open>glob._glob1\<close>: the entries of one directory that match the pattern. A directory that
  cannot be listed gives nothing; the empty directory name stands for the current
  directory; names starting with a dot are dropped unless the pattern starts with one.
\<close>

definition glob1 :: "filesystem \<Rightarrow> string \<Rightarrow> string \<Rightarrow> string list" where
  "glob1 fs dirname pattern =
    (let names = (if dirname = [] \<or> isdir fs dirname then entries fs dirname else []);
         names = (if \<not> ishidden pattern then filter (\<lambda>n. \<not> ishidden n) names else names)
     in filter (\<lambda>n. fnmatch n pattern) names)"

text \<open>
  \<^verbatim>\<open>glob.glob(pathname)\<close> for a pathname whose last component has a wildcard, as
  \<^verbatim>\<open>os.path.join(source_folder, pattern)\<close> always has.
\<close>

definition glob :: "library \<Rightarrow> filesystem \<Rightarrow> string \<Rightarrow> string list" where
  "glob lib fs pathname =
    (let (dirname, basename) = path_split pathname;
         dirs = (if dirname \<noteq> pathname \<and> has_magic dirname then glob_dirs lib fs dirname
                 else [dirname])
     in concat (map (\<lambda>d. map (path_join d) (glob1 fs d basename)) dirs))"

definition patterns :: "string list" where
  "patterns =
    [''*.heic'', ''*.HEIC'', ''*.heif'', ''*.HEIF'',
     ''*.jpg'', ''*.JPG'', ''*.jpeg'', ''*.JPEG'',
     ''*.png'', ''*.PNG'']"

text \<open>
  \<^verbatim>\<open>get_image_files(source_folder)\<close>. \<^verbatim>\<open>sorted(list(set(image_files)))\<close> is the duplicate-free
  list in ascending order; strings compare character by character.
\<close>

definition get_image_files :: "library \<Rightarrow> filesystem \<Rightarrow> string \<Rightarrow> string list" where
  "get_image_files lib fs source_folder =
    (let image_files = concat (map (\<lambda>pattern. glob lib fs (path_join source_folder pattern)) patterns)
     in sort (remdups image_files))"

section \<open>Decoding and mode normalisation\<close>

definition white :: "byte list" where
  "white = [255, 255, 255]"

text \<open>\<^verbatim>\<open>Image.new('RGB', size, color)\<close>.\<close>

definition Image_new_RGB :: "nat \<times> nat \<Rightarrow> byte list \<Rightarrow> image" where
  "Image_new_RGB sz color =
    \<lparr>mode = ''RGB'', im_size = sz, pixels = replicate (fst sz * snd sz) color,
     palette = [], info_exif = None\<rparr>"

text \<open>
  \<^verbatim>\<open>img.convert('RGBA')\<close> of a mode P image: every index is replaced by its palette entry;
  an index beyond the stored entries is opaque black.
\<close>

definition palette_lookup :: "byte list list \<Rightarrow> byte list \<Rightarrow> byte list" where
  "palette_lookup pal px =
    (case px of
       [] \<Rightarrow> [0, 0, 0, 255]
     | i # _ \<Rightarrow> if unat i < length pal then pal ! unat i else [0, 0, 0, 255])"

definition convert_P_RGBA :: "image \<Rightarrow> image" where
  "convert_P_RGBA img =
    img\<lparr>mode := ''RGBA'', pixels := map (palette_lookup (palette img)) (pixels img), palette := []\<rparr>"

text \<open>\<^verbatim>\<open>img.split()[-1]\<close>: the last band, one value per pixel.\<close>

definition last_band :: "image \<Rightarrow> byte list" where
  "last_band img = map last (pixels img)"

text \<open>
  The colour that a pixel of the pasted image contributes to an RGB destination: its
  first three bytes in the library's four-byte pixel storage, which holds \<open>l, l, l, a\<close>
  for a mode LA pixel.
\<close>

definition rgb_bytes :: "string \<Rightarrow> byte list \<Rightarrow> byte list" where
  "rgb_bytes m px =
    (if m = ''LA'' then (case px of [] \<Rightarrow> [] | l # _ \<Rightarrow> [l, l, l]) else take 3 px)"

text \<open>
  The library's 8-bit blend of destination \<open>out\<close> and source \<open>inp\<close> under a mask value
  \<open>m\<close>: \<open>(out * (255 - m) + inp * m) / 255\<close>, rounded with shifts.
\<close>

definition div255 :: "nat \<Rightarrow> nat" where
  "div255 a = (let tmp = a + 128 in ((tmp div 256) + tmp) div 256)"

definition blend8 :: "byte \<Rightarrow> byte \<Rightarrow> byte \<Rightarrow> byte" where
  "blend8 m out inp = of_nat (div255 (unat out * (255 - unat m) + unat inp * unat m))"

text \<open>
  \<^verbatim>\<open>background.paste(img, mask=mask)\<close> for an RGB background and an image of the same size:
  with a mask every band is blended, without one the pixels are copied.
\<close>

definition paste :: "image \<Rightarrow> image \<Rightarrow> byte list option \<Rightarrow> image" where
  "paste background img mask' =
    background\<lparr>pixels :=
      (case mask' of
         None \<Rightarrow> map (rgb_bytes (mode img)) (pixels img)
       | Some ms \<Rightarrow>
           map (\<lambda>(out, inp, m). map (\<lambda>(b, c). blend8 m b c) (zip out (rgb_bytes (mode img) inp)))
             (zip (pixels background) (zip (pixels img) ms)))\<rparr>"

text \<open>
  The mode normalisation that \<^verbatim>\<open>convert_image_to_format\<close> (lines 153 to 161, for the JPEG
  targets) and \<^verbatim>\<open>convert_image_to_pdf\<close> (lines 237 to 244) both spell out, statement by
  statement the same. \<open>None\<close> stands for an exception of the library.
\<close>

definition to_rgb :: "library \<Rightarrow> image \<Rightarrow> image option" where
  "to_rgb lib img =
    (if mode img \<in> set [''RGBA'', ''LA'', ''P''] then
       (let background = Image_new_RGB (im_size img) white;
            img = (if mode img = ''P'' then convert_P_RGBA img else img);
            background = paste background img
              (if mode img \<in> set [''RGBA'', ''LA''] then Some (last_band img) else None)
        in Some background)
     else if mode img \<noteq> ''RGB'' then Image_convert lib img ''RGB''
     else Some img)"

text \<open>
  \<^verbatim>\<open>convert_image_to_format(image_path, output_format, quality)\<close>: the pair of image and EXIF
  blob, or \<open>None\<close> for the pair \<^verbatim>\<open>(None, None)\<close> returned when anything raised.
\<close>

definition convert_image_to_format ::
  "library \<Rightarrow> filesystem \<Rightarrow> string \<Rightarrow> string \<Rightarrow> int \<Rightarrow> (image \<times> byte list option) option" where
  "convert_image_to_format lib fs image_path output_format quality =
    (case read_file fs image_path of
       Inl e \<Rightarrow> None
     | Inr data \<Rightarrow>
        (case Image_open lib data of
           None \<Rightarrow> None
         | Some img \<Rightarrow>
            (let exif_data = info_exif img
             in if upper output_format = ''JPG'' \<or> upper output_format = ''JPEG''
                then (case to_rgb lib img of None \<Rightarrow> None | Some img' \<Rightarrow> Some (img', exif_data))
                else Some (img, exif_data))))"

section \<open>Saving\<close>

text \<open>Truth value of an optional byte string: \<^verbatim>\<open>None\<close> and \<^verbatim>\<open>b''\<close> are false.\<close>

definition truthy :: "byte list option \<Rightarrow> bool" where
  "truthy b = (case b of None \<Rightarrow> False | Some d \<Rightarrow> d \<noteq> [])"

text \<open>
  \<^verbatim>\<open>save_as_image(img, output_path, output_format, quality, exif_data)\<close>: the file system
  after the call and the returned flag. \<^verbatim>\<open>img.save\<close> opens \<^verbatim>\<open>output_path\<close> itself, so a save
  that raises in the encoder has already truncated a file that was there.
\<close>

definition save_as_image ::
  "library \<Rightarrow> filesystem \<Rightarrow> image \<Rightarrow> string \<Rightarrow> string \<Rightarrow> int \<Rightarrow> byte list option \<Rightarrow> filesystem \<times> bool" where
  "save_as_image lib fs img output_path output_format quality exif_data =
    (let save_kwargs =
           (if upper output_format \<in> set [''JPG'', ''JPEG'']
            then \<lparr>kw_format = ''JPEG'', kw_quality = Some quality, kw_optimize = True,
                  kw_subsampling = Some 0, kw_progressive = Some True, kw_compress_level = None,
                  kw_exif = (if truthy exif_data then exif_data else None)\<rparr>
            else \<lparr>kw_format = ''PNG'', kw_quality = None, kw_optimize = True,
                  kw_subsampling = None, kw_progressive = None, kw_compress_level = Some 6,
                  kw_exif = (if truthy exif_data then exif_data else None)\<rparr>)
     in library_save fs output_path (removes_created lib) (Image_save lib img save_kwargs))"

section \<open>PDF output\<close>

text \<open>The page sizes of the PDF library in points: \<^verbatim>\<open>letter\<close> and \<^verbatim>\<open>A4\<close> (210 mm by 297 mm).\<close>

definition letter :: "real \<times> real" where
  "letter = (612, 792)"

definition A4 :: "real \<times> real" where
  "A4 = (210 * (72 / 25.4), 297 * (72 / 25.4))"

text \<open>
  Lines 247 to 271 of \<^verbatim>\<open>convert_image_to_pdf\<close>: from the size of the normalised image to the
  arguments of \<^verbatim>\<open>drawImage\<close>. Dividing by a zero width or height raises.
\<close>

definition pdf_layout :: "image \<Rightarrow> string \<Rightarrow> py_error + pdf_page" where
  "pdf_layout img page_size =
    (let (img_width, img_height) = im_size img;
         pdf_page_size = (if upper page_size = ''A4'' then A4 else letter);
         (page_width, page_height) = pdf_page_size
     in if img_width = 0 \<or> img_height = 0 then Inl ZeroDivisionError
        else
          (let width_ratio = page_width / real img_width;
               height_ratio = page_height / real img_height;
               scale = min width_ratio height_ratio * 0.9;
               scaled_width = real img_width * scale;
               scaled_height = real img_height * scale;
               x_offset = (page_width - scaled_width) / 2;
               y_offset = (page_height - scaled_height) / 2
           in Inr \<lparr>pagesize = pdf_page_size, drawn = img, draw_x = x_offset, draw_y = y_offset,
                    draw_width = scaled_width, draw_height = scaled_height\<rparr>))"

text \<open>
  \<^verbatim>\<open>convert_image_to_pdf(image_path, output_path, page_size)\<close>: the file system after the
  call and the returned flag; every exception ends in \<^verbatim>\<open>return False\<close>. The PDF library
  opens \<^verbatim>\<open>output_path\<close> in \<^verbatim>\<open>c.save()\<close> and removes nothing when it raises.
\<close>

definition convert_image_to_pdf ::
  "library \<Rightarrow> filesystem \<Rightarrow> string \<Rightarrow> string \<Rightarrow> string \<Rightarrow> filesystem \<times> bool" where
  "convert_image_to_pdf lib fs image_path output_path page_size =
    (case read_file fs image_path of
       Inl e \<Rightarrow> (fs, False)
     | Inr data \<Rightarrow>
        (case Image_open lib data of
           None \<Rightarrow> (fs, False)
         | Some img \<Rightarrow>
            (case to_rgb lib img of
               None \<Rightarrow> (fs, False)
             | Some img' \<Rightarrow>
                (case pdf_layout img' page_size of
                   Inl e \<Rightarrow> (fs, False)
                 | Inr page \<Rightarrow> library_save fs output_path False (Canvas_save lib page)))))"

section \<open>Batch conversion\<close>

definition output_ext :: "string \<Rightarrow> string" where
  "output_ext output_format =
    (if upper output_format = ''PDF'' then ''.pdf''
     else if upper output_format \<in> set [''JPG'', ''JPEG''] then ''.jpg''
     else ''.png'')"

text \<open>One pass of the loop body of \<^verbatim>\<open>convert_images\<close> (lines 320 to 343): the job for one file.\<close>

definition convert_one ::
  "library \<Rightarrow> string \<Rightarrow> string \<Rightarrow> int \<Rightarrow> string \<Rightarrow> filesystem \<Rightarrow> string \<Rightarrow> filesystem \<times> bool" where
  "convert_one lib output_folder output_format quality page_size fs image_file =
    (let filename = basename image_file;
         base_name = fst (splitext filename);
         output_path = path_join output_folder (base_name @ output_ext output_format)
     in if upper output_format = ''PDF''
        then convert_image_to_pdf lib fs image_file output_path page_size
        else (case convert_image_to_format lib fs image_file output_format quality of
                Some (img, exif_data) \<Rightarrow>
                  save_as_image lib fs img output_path output_format quality exif_data
              | None \<Rightarrow> (fs, False)))"

text \<open>The loop over the discovered files, with the file system and both counters as state.\<close>

fun convert_loop ::
  "library \<Rightarrow> string \<Rightarrow> string \<Rightarrow> int \<Rightarrow> string \<Rightarrow> string list \<Rightarrow> filesystem \<times> nat \<times> nat
     \<Rightarrow> filesystem \<times> nat \<times> nat" where
  "convert_loop lib output_folder output_format quality page_size [] (fs, successful, failed) =
     (fs, successful, failed)"
| "convert_loop lib output_folder output_format quality page_size (image_file # rest)
     (fs, successful, failed) =
     (case convert_one lib output_folder output_format quality page_size fs image_file of
        (fs', success) \<Rightarrow>
          if success
          then convert_loop lib output_folder output_format quality page_size rest
                 (fs', successful + 1, failed)
          else convert_loop lib output_folder output_format quality page_size rest
                 (fs', successful, failed + 1))"

text \<open>The dictionary that \<^verbatim>\<open>convert_images\<close> returns.\<close>

record stats =
  total :: nat
  successful :: nat
  failed :: nat

text \<open>
  Lines 298 to 304 of \<^verbatim>\<open>convert_images\<close>: the output folder is created and, when asked for,
  cleared (with the README kept). The exceptions of \<^verbatim>\<open>os.makedirs\<close> and \<^verbatim>\<open>os.listdir\<close> leave
  \<^verbatim>\<open>convert_images\<close>.
\<close>

definition prepare_output :: "filesystem \<Rightarrow> string \<Rightarrow> bool \<Rightarrow> py_error + filesystem" where
  "prepare_output fs output_folder clear_output =
    (case makedirs fs output_folder of
       Inl e \<Rightarrow> Inl e
     | Inr fs1 \<Rightarrow>
        if clear_output
        then (case clear_output_folder fs1 output_folder True of
                Inl e \<Rightarrow> Inl e
              | Inr (fs2, removed_count) \<Rightarrow> Inr fs2)
        else Inr fs1)"

definition convert_images ::
  "library \<Rightarrow> filesystem \<Rightarrow> string \<Rightarrow> string \<Rightarrow> string \<Rightarrow> int \<Rightarrow> string \<Rightarrow> bool
     \<Rightarrow> py_error + filesystem \<times> stats" where
  "convert_images lib fs source_folder output_folder output_format quality page_size clear_output =
    (case prepare_output fs output_folder clear_output of
       Inl e \<Rightarrow> Inl e
     | Inr fs2 \<Rightarrow>
        (let image_files = get_image_files lib fs2 source_folder
         in if image_files = [] then Inr (fs2, \<lparr>total = 0, successful = 0, failed = 0\<rparr>)
            else (case convert_loop lib output_folder output_format quality page_size image_files
                         (fs2, 0, 0) of
                    (fs3, n_successful, n_failed) \<Rightarrow>
                      Inr (fs3, \<lparr>total = length image_files, successful = n_successful,
                                 failed = n_failed\<rparr>))))"

section \<open>The command line\<close>

text \<open>
  The options as typed, each absent or with its value (the quality already converted by
  \<^verbatim>\<open>type=int\<close>), and the namespace that \<^verbatim>\<open>parse_args\<close> returns.
\<close>

record options =
  opt_source :: "string option"
  opt_output :: "string option"
  opt_format :: "string option"
  opt_quality :: "int option"
  opt_page_size :: "string option"
  opt_verbose :: bool
  opt_no_clear :: bool

record args =
  args_source :: string
  args_output :: string
  args_format :: string
  args_quality :: int
  args_page_size :: string
  args_verbose :: bool
  args_no_clear :: bool

text \<open>What the program reads from its surroundings: the directory of the script and the
  local time, formatted \<^verbatim>\<open>%Y%m%d_%H%M%S\<close>.\<close>

record environment =
  script_dir :: string
  timestamp :: string

definition format_choices :: "string list" where
  "format_choices = [''pdf'', ''png'', ''jpg'', ''jpeg'', ''PDF'', ''PNG'', ''JPG'', ''JPEG'']"

definition page_size_choices :: "string list" where
  "page_size_choices = [''letter'', ''a4'', ''LETTER'', ''A4'']"

text \<open>
  An argument with \<^verbatim>\<open>choices\<close>: a value that is not an element of the list makes the parser
  print the usage and exit with status 2.
\<close>

definition check_choice :: "string list \<Rightarrow> string \<Rightarrow> py_error + string" where
  "check_choice choices v = (if v \<in> set choices then Inr v else Inl (SystemExit 2))"

definition dirname :: "string \<Rightarrow> string" where
  "dirname p = fst (path_split p)"

definition parse_args :: "environment \<Rightarrow> options \<Rightarrow> py_error + args" where
  "parse_args env opts =
    (let project_root = dirname (script_dir env);
         default_source = path_join (path_join project_root ''images'') ''source'';
         default_output = path_join (path_join project_root ''images'') ''output''
     in case (case opt_format opts of None \<Rightarrow> Inr ''png'' | Some v \<Rightarrow> check_choice format_choices v) of
          Inl e \<Rightarrow> Inl e
        | Inr fmt \<Rightarrow>
           (case (case opt_page_size opts of None \<Rightarrow> Inr ''letter''
                  | Some v \<Rightarrow> check_choice page_size_choices v) of
              Inl e \<Rightarrow> Inl e
            | Inr ps \<Rightarrow>
               Inr \<lparr>args_source = (case opt_source opts of None \<Rightarrow> default_source | Some v \<Rightarrow> v),
                    args_output = (case opt_output opts of None \<Rightarrow> default_output | Some v \<Rightarrow> v),
                    args_format = fmt,
                    args_quality = (case opt_quality opts of None \<Rightarrow> 95 | Some q \<Rightarrow> q),
                    args_page_size = ps,
                    args_verbose = opt_verbose opts,
                    args_no_clear = opt_no_clear opts\<rparr>))"

text \<open>
  Opening the log file in append mode creates it when it is missing. The lines written to
  it later are not tracked in the file system.
\<close>

definition open_append :: "filesystem \<Rightarrow> string \<Rightarrow> py_error + filesystem" where
  "open_append fs p =
    (case map_of fs p of
       None \<Rightarrow> Inr (AList.update p (File [] False) fs)
     | Some Dir \<Rightarrow> Inl (OSError ''IsADirectoryError'')
     | Some (File d l) \<Rightarrow> if l then Inl (OSError ''PermissionError'') else Inr fs)"

text \<open>
  \<^verbatim>\<open>setup_logging(log_level)\<close>: the file system after the call, and the path of the log file
  or the exception raised.
\<close>

definition setup_logging :: "environment \<Rightarrow> filesystem \<Rightarrow> filesystem \<times> (py_error + string)" where
  "setup_logging env fs =
    (let logs_dir = path_join (dirname (script_dir env)) ''logs''
     in case makedirs fs logs_dir of
          Inl e \<Rightarrow> (fs, Inl e)
        | Inr fs1 \<Rightarrow>
           (let log_file = path_join logs_dir (''convert_images_'' @ timestamp env @ ''.log'')
            in case open_append fs1 log_file of
                 Inl e \<Rightarrow> (fs1, Inl e)
               | Inr fs2 \<Rightarrow> (fs2, Inr log_file)))"

text \<open>The entries that \<^verbatim>\<open>main\<close> itself writes with \<^verbatim>\<open>logging.error\<close>.\<close>

datatype log_entry =
    Quality_must_be_between_1_and_100
  | Source_folder_does_not_exist string
  | Source_path_is_not_a_directory string
  | Unexpected_error py_error

text \<open>
  How a run of \<^verbatim>\<open>main\<close> ends: the exit status of the process, the error entries of
  \<^verbatim>\<open>main\<close>, the file system, and the statistics when \<^verbatim>\<open>convert_images\<close> returned.
\<close>

record outcome =
  exit_code :: int
  error_log :: "log_entry list"
  final_fs :: filesystem
  run_stats :: "stats option"

text \<open>
  \<^verbatim>\<open>main()\<close>. An exception of \<^verbatim>\<open>setup_logging\<close> is not caught and ends the process with
  status 1; an exception of \<^verbatim>\<open>convert_images\<close> is caught, logged and turned into status 1
  (it can only come from creating or listing the output folder, before any file is
  written); \<^verbatim>\<open>sys.exit\<close> passes through \<^verbatim>\<open>except Exception\<close>.
\<close>

definition main :: "library \<Rightarrow> environment \<Rightarrow> filesystem \<Rightarrow> options \<Rightarrow> outcome" where
  "main lib env fs opts =
    (case parse_args env opts of
       Inl e \<Rightarrow> \<lparr>exit_code = 2, error_log = [], final_fs = fs, run_stats = None\<rparr>
     | Inr args \<Rightarrow>
        (case setup_logging env fs of
           (fs1, Inl e) \<Rightarrow> \<lparr>exit_code = 1, error_log = [], final_fs = fs1, run_stats = None\<rparr>
         | (fs1, Inr log_file) \<Rightarrow>
            if args_quality args < 1 \<or> args_quality args > 100
            then \<lparr>exit_code = 1, error_log = [Quality_must_be_between_1_and_100],
                  final_fs = fs1, run_stats = None\<rparr>
            else if \<not> path_exists fs1 (args_source args)
            then \<lparr>exit_code = 1, error_log = [Source_folder_does_not_exist (args_source args)],
                  final_fs = fs1, run_stats = None\<rparr>
            else if \<not> isdir fs1 (args_source args)
            then \<lparr>exit_code = 1, error_log = [Source_path_is_not_a_directory (args_source args)],
                  final_fs = fs1, run_stats = None\<rparr>
            else (case convert_images lib fs1 (args_source args) (args_output args)
                         (args_format args) (args_quality args) (args_page_size args)
                         (\<not> args_no_clear args) of
                    Inl e \<Rightarrow> \<lparr>exit_code = 1, error_log = [Unexpected_error e], final_fs = fs1,
                               run_stats = None\<rparr>
                  | Inr (fs2, st) \<Rightarrow>
                      \<lparr>exit_code = (if failed st > 0 then 1 else 0), error_log = [],
                       final_fs = fs2, run_stats = Some st\<rparr>)))"

section \<open>Auxiliary notions and example data\<close>

text \<open>
  An entry of the output folder that one pass of the clearing loop deletes: not a
  directory, not a kept README, named with one of the extensions, and an unlocked
  regular file, so that \<^verbatim>\<open>os.remove\<close> succeeds.
\<close>

definition removable :: "filesystem \<Rightarrow> string \<Rightarrow> bool \<Rightarrow> string \<Rightarrow> bool" where
  "removable fs output_folder keep_readme filename =
    (\<not> isdir fs (path_join output_folder filename)
     \<and> \<not> (keep_readme \<and> lower filename = ''readme.md'')
     \<and> list_ex (\<lambda>ext. endswith (lower filename) (lower ext)) extensions_to_remove
     \<and> (case stat fs (path_join output_folder filename) of Some (File d l) \<Rightarrow> \<not> l | _ \<Rightarrow> False))"

text \<open>
  The second file system comes from the first by deleting unlocked regular files: no new
  path, and every path is as before or was such a file and is gone.
\<close>

definition shrinks :: "filesystem \<Rightarrow> filesystem \<Rightarrow> bool" where
  "shrinks fs fs' =
    (fst ` set fs' \<subseteq> fst ` set fs
     \<and> (\<forall>q. stat fs' q = stat fs q \<or> (stat fs' q = None \<and> (\<exists>d. stat fs q = Some (File d False)))))"

text \<open>An output folder with a converted file, a subdirectory, a locked file and a README.\<close>

definition example_output :: filesystem where
  "example_output =
    [(''out'', Dir), (''out/a.png'', File [1] False), (''out/album.png'', Dir),
     (''out/b.JPG'', File [2] True), (''out/README.md'', File [3] False),
     (''out/notes.txt'', File [] False)]"

definition example_output_cleared :: filesystem where
  "example_output_cleared =
    [(''out'', Dir), (''out/album.png'', Dir), (''out/b.JPG'', File [2] True),
     (''out/README.md'', File [3] False), (''out/notes.txt'', File [] False)]"

text \<open>The extensions behind the ten patterns of \<^verbatim>\<open>get_image_files\<close>.\<close>

definition supported_extensions :: "string list" where
  "supported_extensions =
    [''.heic'', ''.HEIC'', ''.heif'', ''.HEIF'', ''.jpg'', ''.JPG'', ''.jpeg'', ''.JPEG'',
     ''.png'', ''.PNG'']"

text \<open>
  The directory that \<^verbatim>\<open>glob\<close> lists for a pattern joined to the source folder: the folder
  without its trailing separators.
\<close>

definition glob_dir :: "string \<Rightarrow> string" where
  "glob_dir source_folder = dirname (path_join source_folder ''*'')"

text \<open>The image that is pasted on the white background: a mode P image expanded to RGBA,
  any other as it is.\<close>

definition expanded :: "image \<Rightarrow> image" where
  "expanded img = (if mode img = ''P'' then convert_P_RGBA img else img)"

text \<open>
  A small library for the examples. A file of five bytes \<open>[k, r, g, b, a]\<close> decodes to a
  one-pixel image, RGB for \<open>k = 3\<close>, RGBA (with a one-byte EXIF blob) for \<open>k = 4\<close> and CMYK
  for \<open>k = 5\<close>; any other file is not an image. The encoders write the band values of the
  pixels; the JPEG encoder refuses a mode other than RGB and the PNG encoder refuses CMYK,
  both after the output file has been opened.
\<close>

definition toy_decode :: "byte list \<Rightarrow> image option" where
  "toy_decode d =
    (case d of
       [k, r, g, b, a] \<Rightarrow>
         if k = 3 then Some \<lparr>mode = ''RGB'', im_size = (1, 1), pixels = [[r, g, b]], palette = [],
                              info_exif = None\<rparr>
         else if k = 4 then Some \<lparr>mode = ''RGBA'', im_size = (1, 1), pixels = [[r, g, b, a]],
                                   palette = [], info_exif = Some [a]\<rparr>
         else if k = 5 then Some \<lparr>mode = ''CMYK'', im_size = (1, 1), pixels = [[r, g, b, a]],
                                   palette = [], info_exif = None\<rparr>
         else None
     | _ \<Rightarrow> None)"

definition toy_encode :: "image \<Rightarrow> save_kwargs \<Rightarrow> save_result" where
  "toy_encode img kw =
    (if kw_format kw = ''JPEG'' \<and> mode img \<noteq> ''RGB'' then Raised (Some [])
     else if kw_format kw = ''PNG'' \<and> mode img = ''CMYK'' then Raised (Some [])
     else Saved (concat (pixels img)))"

definition example_library :: library where
  "example_library =
    \<lparr>Image_open = toy_decode, Image_convert = (\<lambda>img m. None), Image_save = toy_encode,
     Canvas_save = (\<lambda>page. Saved (concat (pixels (drawn page)))), removes_created = True,
     glob_dirs = (\<lambda>fs d. [])\<rparr>"

text \<open>
  A source folder with five files, of which \<^verbatim>\<open>a.png\<close> is not an image, and an output folder
  with a file of an earlier run.
\<close>

definition example_batch :: filesystem where
  "example_batch =
    [(''src'', Dir),
     (''src/a.heic'', File [4, 10, 20, 30, 0] False),
     (''src/a.png'', File [9] False),
     (''src/b.jpg'', File [3, 1, 2, 3, 0] False),
     (''src/c.png'', File [3, 7, 8, 9, 0] False),
     (''src/c.heic'', File [3, 4, 5, 6, 0] False),
     (''out'', Dir),
     (''out/old.pdf'', File [7] False)]"

definition example_converted :: filesystem where
  "example_converted =
    [(''src'', Dir),
     (''src/a.heic'', File [4, 10, 20, 30, 0] False),
     (''src/a.png'', File [9] False),
     (''src/b.jpg'', File [3, 1, 2, 3, 0] False),
     (''src/c.png'', File [3, 7, 8, 9, 0] False),
     (''src/c.heic'', File [3, 4, 5, 6, 0] False),
     (''out'', Dir),
     (''out/a.png'', File [10, 20, 30, 0] False),
     (''out/b.png'', File [1, 2, 3] False),
     (''out/c.png'', File [7, 8, 9] False)]"

definition example_environment :: environment where
  "example_environment = \<lparr>script_dir = ''/app/src'', timestamp = ''20240131_120000''\<rparr>"

definition example_options :: options where
  "example_options =
    \<lparr>opt_source = Some ''src'', opt_output = Some ''out'', opt_format = None, opt_quality = None,
     opt_page_size = None, opt_verbose = False, opt_no_clear = False\<rparr>"

definition example_logged :: filesystem where
  "example_logged =
    example_batch
    @ [(''/app/logs'', Dir), (''/app/logs/convert_images_20240131_120000.log'', File [] False)]"

definition example_finished :: filesystem where
  "example_finished =
    [(''src'', Dir),
     (''src/a.heic'', File [4, 10, 20, 30, 0] False),
     (''src/a.png'', File [9] False),
     (''src/b.jpg'', File [3, 1, 2, 3, 0] False),
     (''src/c.png'', File [3, 7, 8, 9, 0] False),
     (''src/c.heic'', File [3, 4, 5, 6, 0] False),
     (''out'', Dir),
     (''/app/logs'', Dir),
     (''/app/logs/convert_images_20240131_120000.log'', File [] False),
     (''out/a.png'', File [10, 20, 30, 0] False),
     (''out/b.png'', File [1, 2, 3] False),
     (''out/c.png'', File [7, 8, 9] False)]"

text \<open>A source folder with a hidden image file, and one with a subdirectory named like an
  image.\<close>

definition example_hidden :: filesystem where
  "example_hidden =
    [(''src'', Dir), (''src/a.png'', File [3, 1, 2, 3, 0] False),
     (''src/.b.png'', File [3, 4, 5, 6, 0] False)]"

definition example_album :: filesystem where
  "example_album =
    [(''src'', Dir), (''src/album.png'', Dir), (''src/a.png'', File [3, 1, 2, 3, 0] False),
     (''out'', Dir)]"

text \<open>The base name of a discovered file and the output path of its job (lines 320 to 331
  of \<^verbatim>\<open>convert_images\<close>).\<close>

definition base_name :: "string \<Rightarrow> string" where
  "base_name image_file = fst (splitext (basename image_file))"

definition target_path :: "string \<Rightarrow> string \<Rightarrow> string \<Rightarrow> string" where
  "target_path output_folder output_format image_file =
    path_join output_folder (base_name image_file @ output_ext output_format)"

text \<open>The keyword arguments that \<^verbatim>\<open>save_as_image\<close> builds.\<close>

definition build_kwargs :: "string \<Rightarrow> int \<Rightarrow> byte list option \<Rightarrow> save_kwargs" where
  "build_kwargs output_format quality exif_data =
           (if upper output_format \<in> set [''JPG'', ''JPEG'']
            then \<lparr>kw_format = ''JPEG'', kw_quality = Some quality, kw_optimize = True,
                  kw_subsampling = Some 0, kw_progressive = Some True, kw_compress_level = None,
                  kw_exif = (if truthy exif_data then exif_data else None)\<rparr>
            else \<lparr>kw_format = ''PNG'', kw_quality = None, kw_optimize = True,
                  kw_subsampling = None, kw_progressive = None, kw_compress_level = Some 6,
                  kw_exif = (if truthy exif_data then exif_data else None)\<rparr>)"

text \<open>
  How the saving call of the job of one file ends, from what reading the source file gave;
  \<open>Raised None\<close> also when reading, decoding or normalising fails, which is before any
  saving call. The second definition says whether the job removes an incomplete file
  that it created.
\<close>

definition job_output ::
  "library \<Rightarrow> string \<Rightarrow> int \<Rightarrow> string \<Rightarrow> py_error + byte list \<Rightarrow> save_result" where
  "job_output lib output_format quality page_size source =
    (case source of
       Inl e \<Rightarrow> Raised None
     | Inr data \<Rightarrow>
        (case Image_open lib data of
           None \<Rightarrow> Raised None
         | Some img \<Rightarrow>
            if upper output_format = ''PDF''
            then (case to_rgb lib img of
                    None \<Rightarrow> Raised None
                  | Some img' \<Rightarrow>
                     (case pdf_layout img' page_size of
                        Inl e \<Rightarrow> Raised None
                      | Inr page \<Rightarrow> Canvas_save lib page))
            else (case (if upper output_format = ''JPG'' \<or> upper output_format = ''JPEG''
                        then to_rgb lib img else Some img) of
                    None \<Rightarrow> Raised None
                  | Some img' \<Rightarrow>
                      Image_save lib img' (build_kwargs output_format quality (info_exif img)))))"

definition job_cleanup :: "library \<Rightarrow> string \<Rightarrow> bool" where
  "job_cleanup lib output_format = (upper output_format \<noteq> ''PDF'' \<and> removes_created lib)"

text \<open>
  The node at the output path after a saving call, from the node that was there: the
  effect of \<open>library_save\<close> seen at its path.
\<close>

definition node_after :: "bool \<Rightarrow> node option \<Rightarrow> save_result \<Rightarrow> node option" where
  "node_after cleanup m r =
    (if (case m of None \<Rightarrow> False | Some Dir \<Rightarrow> True | Some (File d l) \<Rightarrow> l) then m
     else (case r of
             Saved data \<Rightarrow> Some (File data False)
           | Raised None \<Rightarrow> m
           | Raised (Some partial) \<Rightarrow>
               if cleanup \<and> m = None then None else Some (File partial False)))"

text \<open>A path at which \<open>write_file\<close> succeeds.\<close>

definition writable :: "filesystem \<Rightarrow> string \<Rightarrow> bool" where
  "writable fs p =
    (p \<noteq> [] \<and> last p \<noteq> sep
     \<and> (case map_of fs p of None \<Rightarrow> True | Some Dir \<Rightarrow> False | Some (File d l) \<Rightarrow> \<not> l))"

text \<open>The example batch after its output folder has been cleared.\<close>

definition example_prepared :: filesystem where
  "example_prepared =
    [(''src'', Dir),
     (''src/a.heic'', File [4, 10, 20, 30, 0] False),
     (''src/a.png'', File [9] False),
     (''src/b.jpg'', File [3, 1, 2, 3, 0] False),
     (''src/c.png'', File [3, 7, 8, 9, 0] False),
     (''src/c.heic'', File [3, 4, 5, 6, 0] False),
     (''out'', Dir)]"

text \<open>A source folder in which \<^verbatim>\<open>a.jpg\<close> is a CMYK image, which the PNG encoder refuses.\<close>

definition example_cmyk :: filesystem where
  "example_cmyk =
    [(''src'', Dir),
     (''src/a.heic'', File [4, 10, 20, 30, 0] False),
     (''src/a.jpg'', File [5, 1, 2, 3, 4] False),
     (''out'', Dir)]"

section \<open>Usage examples against the engine's names\<close>

text \<open>
  C1. The claim says that every scenario of the usage-examples module calls engine
  operations that exist in the engine module under the names the examples module
  references. In the code three of the six imported names (\<^verbatim>\<open>convert_heic_to_image\<close>,
  \<^verbatim>\<open>convert_heic_to_pdf\<close>, \<^verbatim>\<open>get_heic_files\<close>) are not bound by \<^verbatim>\<open>convert_heic.py\<close>, whose
  functions are called \<^verbatim>\<open>convert_image_to_format\<close>, \<^verbatim>\<open>convert_image_to_pdf\<close> and
  \<^verbatim>\<open>get_image_files\<close>. Whatever the menu choice, the script ends with an
  \<^verbatim>\<open>ImportError\<close> for the first missing name and no scenario is executed.
\<close>

theorem example_usage_import_fails:
  "run_example_usage choice = Inl (ImportError ''convert_heic_to_image'')
   \<and> filter (\<lambda>n. n \<notin> set convert_heic_namespace) example_usage_imports
       = [''convert_heic_to_image'', ''convert_heic_to_pdf'', ''get_heic_files'']"
  by (simp add: run_example_usage_def example_usage_imports_def convert_heic_namespace_def
      convert_heic_imported_def convert_heic_functions_def)

section \<open>Paths and directory entries\<close>

lemma path_join_entry:
  assumes "n \<noteq> []" and "sep \<notin> set n"
  shows "path_join d n = dir_prefix d @ n"
proof -
  from assms have "hd n \<noteq> sep" by (cases n) auto
  then show ?thesis by (simp add: path_join_def dir_prefix_def)
qed

lemma entry_name_SomeD:
  assumes "entry_name d p = Some n"
  shows "p = path_join d n" and "n \<noteq> []" and "sep \<notin> set n"
proof -
  from assms have n: "n = drop (length (dir_prefix d)) p" "take (length (dir_prefix d)) p = dir_prefix d"
    "n \<noteq> []" "sep \<notin> set n"
    by (auto simp: entry_name_def Let_def split: if_splits)
  show "n \<noteq> []" "sep \<notin> set n" by fact+
  have "p = take (length (dir_prefix d)) p @ drop (length (dir_prefix d)) p" by simp
  then have "p = dir_prefix d @ n" using n by simp
  then show "p = path_join d n" using path_join_entry[OF n(3,4)] by simp
qed

lemma rstrip_sep_id: "p \<noteq> [] \<Longrightarrow> last p \<noteq> sep \<Longrightarrow> rstrip_sep p = p"
  by (cases p rule: rev_cases) (auto simp: rstrip_sep_def)

lemma entry_path_clean:
  assumes "n \<noteq> []" and "sep \<notin> set n"
  shows "path_join d n \<noteq> []" and "last (path_join d n) \<noteq> sep"
proof -
  show "path_join d n \<noteq> []" using assms by (simp add: path_join_entry)
  from assms have "last n \<noteq> sep" using last_in_set[of n] by metis
  then show "last (path_join d n) \<noteq> sep" using assms by (simp add: path_join_entry)
qed

lemma stat_clean: "p \<noteq> [] \<Longrightarrow> last p \<noteq> sep \<Longrightarrow> stat fs p = map_of fs p"
  by (auto simp: stat_def rstrip_sep_id split: option.splits node.splits)

lemma entries_stat:
  assumes "n \<in> set (entries fs d)"
  shows "stat fs (path_join d n) \<noteq> None"
proof -
  from assms obtain p where p: "p \<in> fst ` set fs" "entry_name d p = Some n"
    by (force simp: entries_def List.map_filter_def)
  from entry_name_SomeD[OF p(2)] have "p = path_join d n" "n \<noteq> []" "sep \<notin> set n" by blast+
  then have "stat fs p = map_of fs p"
    using stat_clean entry_path_clean by metis
  moreover from p(1) have "map_of fs p \<noteq> None"
    by (metis map_of_eq_None_iff)
  ultimately show ?thesis using \<open>p = path_join d n\<close> by simp
qed

section \<open>Clearing the output folder twice\<close>

lemma shrinks_refl: "shrinks fs fs"
  by (simp add: shrinks_def)

lemma shrinks_trans:
  assumes "shrinks a b" and "shrinks b c"
  shows "shrinks a c"
proof -
  have "stat c q = stat a q \<or> (stat c q = None \<and> (\<exists>d. stat a q = Some (File d False)))" for q
  proof -
    from assms(1) have 1: "stat b q = stat a q \<or> (stat b q = None \<and> (\<exists>d. stat a q = Some (File d False)))"
      unfolding shrinks_def by blast
    from assms(2) have 2: "stat c q = stat b q \<or> (stat c q = None \<and> (\<exists>d. stat b q = Some (File d False)))"
      unfolding shrinks_def by blast
    from 1 2 show ?thesis by metis
  qed
  moreover from assms have "fst ` set c \<subseteq> fst ` set a"
    unfolding shrinks_def by blast
  ultimately show ?thesis unfolding shrinks_def by blast
qed

lemma stat_File_path: "stat fs p = Some (File d l) \<Longrightarrow> rstrip_sep p = p \<and> map_of fs p = Some (File d l)"
  by (auto simp: stat_def split: if_splits option.splits node.splits)

lemma os_remove_shrinks:
  assumes "os_remove fs p = Inr fs'"
  shows "shrinks fs fs'" and "stat fs' p = None"
proof -
  from assms obtain d where st: "stat fs p = Some (File d False)" and fs': "fs' = AList.delete p fs"
    by (auto simp: os_remove_def split: option.splits node.splits if_splits)
  from st have p: "rstrip_sep p = p" "map_of fs p = Some (File d False)"
    using stat_File_path by blast+
  show "stat fs' p = None"
    using p by (simp add: stat_def fs' AList.delete_conv')
  have "stat fs' q = stat fs q \<or> (stat fs' q = None \<and> (\<exists>d. stat fs q = Some (File d False)))" for q
  proof (cases "rstrip_sep q = p")
    case True
    then show ?thesis using p st
      by (cases "q = p") (auto simp: stat_def fs' AList.delete_conv')
  next
    case False
    then show ?thesis
      by (simp add: stat_def fs' AList.delete_conv')
  qed
  then show "shrinks fs fs'"
    unfolding shrinks_def using dom_delete_subset[of p fs] by (simp add: fs')
qed

lemma removable_shrinks:
  assumes "shrinks fs fs'" and "removable fs' out keep n"
  shows "removable fs out keep n"
proof -
  from assms(2) obtain d where st': "stat fs' (path_join out n) = Some (File d False)"
    by (auto simp: removable_def split: option.splits node.splits)
  with assms(1) have "stat fs (path_join out n) = Some (File d False)"
    unfolding shrinks_def by (metis option.distinct(1))
  with assms(2) show ?thesis
    by (simp add: removable_def isdir_def)
qed

lemma clear_loop_removable:
  assumes "removable fs out keep n"
  shows "clear_loop out keep (n # names) (fs, k)
         = clear_loop out keep names (AList.delete (path_join out n) fs, k + 1)"
proof -
  from assms obtain d where "stat fs (path_join out n) = Some (File d False)"
    by (auto simp: removable_def split: option.splits node.splits)
  then have "os_remove fs (path_join out n) = Inr (AList.delete (path_join out n) fs)"
    by (simp add: os_remove_def)
  with assms show ?thesis
    by (auto simp: removable_def Let_def)
qed

lemma clear_loop_not_removable:
  assumes "\<not> removable fs out keep n"
  shows "clear_loop out keep (n # names) (fs, k) = clear_loop out keep names (fs, k)"
proof (cases "os_remove fs (path_join out n)")
  case (Inl e)
  then show ?thesis by (simp add: Let_def)
next
  case (Inr fs2)
  then have "\<exists>d. stat fs (path_join out n) = Some (File d False)"
    by (auto simp: os_remove_def split: option.splits node.splits if_splits)
  with assms show ?thesis
    by (auto simp: removable_def Let_def isdir_def)
qed

lemma clear_loop_shrinks:
  "clear_loop out keep names (fs, k) = (fs', k') \<Longrightarrow>
     shrinks fs fs' \<and> (\<forall>n \<in> set names. \<not> removable fs' out keep n)"
proof (induction names arbitrary: fs k)
  case Nil
  then show ?case by (simp add: shrinks_refl)
next
  case (Cons n names)
  show ?case
  proof (cases "removable fs out keep n")
    case True
    define fs2 where "fs2 = AList.delete (path_join out n) fs"
    from True obtain d where "stat fs (path_join out n) = Some (File d False)"
      by (auto simp: removable_def split: option.splits node.splits)
    then have rm: "os_remove fs (path_join out n) = Inr fs2"
      by (simp add: os_remove_def fs2_def)
    from Cons.prems have loop: "clear_loop out keep names (fs2, k + 1) = (fs', k')"
      unfolding clear_loop_removable[OF True] fs2_def .
    from Cons.IH[OF loop] have ih: "shrinks fs2 fs'" "\<forall>n \<in> set names. \<not> removable fs' out keep n"
      by blast+
    have "\<not> removable fs2 out keep n"
      using os_remove_shrinks(2)[OF rm] by (simp add: removable_def)
    then have "\<not> removable fs' out keep n"
      using removable_shrinks[OF ih(1)] by blast
    then show ?thesis
      using ih shrinks_trans[OF os_remove_shrinks(1)[OF rm] ih(1)] by simp
  next
    case False
    from Cons.prems have loop: "clear_loop out keep names (fs, k) = (fs', k')"
      unfolding clear_loop_not_removable[OF False] .
    from Cons.IH[OF loop] have ih: "shrinks fs fs'" "\<forall>n \<in> set names. \<not> removable fs' out keep n"
      by blast+
    from False have "\<not> removable fs' out keep n"
      using removable_shrinks[OF ih(1)] by blast
    then show ?thesis using ih by simp
  qed
qed

lemma clear_loop_nothing_removable:
  "\<forall>n \<in> set names. \<not> removable fs out keep n \<Longrightarrow> clear_loop out keep names (fs, k) = (fs, k)"
proof (induction names)
  case Nil
  then show ?case by simp
next
  case (Cons n names)
  then have "\<not> removable fs out keep n" by simp
  from clear_loop_not_removable[OF this] Cons show ?case by simp
qed

lemma entries_subset:
  assumes "fst ` set fs' \<subseteq> fst ` set fs"
  shows "set (entries fs' d) \<subseteq> set (entries fs d)"
proof
  fix n assume "n \<in> set (entries fs' d)"
  then obtain p where p: "p \<in> fst ` set fs'" "entry_name d p = Some n"
    by (force simp: entries_def List.map_filter_def)
  with assms have "p \<in> fst ` set fs" by blast
  with p(2) show "n \<in> set (entries fs d)"
    by (force simp: entries_def List.map_filter_def)
qed

lemma not_removable_cases:
  assumes "\<not> removable fs out keep n"
    and "list_ex (\<lambda>ext. endswith (lower n) (lower ext)) extensions_to_remove"
    and "stat fs (path_join out n) \<noteq> None"
  shows "isdir fs (path_join out n) \<or> (keep \<and> lower n = ''readme.md'')
         \<or> (\<exists>d. stat fs (path_join out n) = Some (File d True))"
  using assms by (auto simp: removable_def isdir_def split: option.splits node.splits)

text \<open>
  C9 (amended). When a call of \<^verbatim>\<open>clear_output_folder\<close> returns, a second call on the
  resulting directory removes nothing: it returns the same file system and the count 0,
  so the README and the subdirectories are as the first call left them. After the first
  call every entry that \<^verbatim>\<open>os.listdir\<close> still reports and whose name ends, in any letter
  case, in \<^verbatim>\<open>.png\<close>, \<^verbatim>\<open>.jpg\<close>, \<^verbatim>\<open>.jpeg\<close> or \<^verbatim>\<open>.pdf\<close> is a subdirectory, a kept
  \<^verbatim>\<open>readme.md\<close> or a file whose deletion failed. Directories are never removed.
\<close>

theorem clear_output_folder_twice:
  assumes "clear_output_folder fs output_folder keep_readme = Inr (fs1, removed1)"
  shows "clear_output_folder fs1 output_folder keep_readme = Inr (fs1, 0)
     \<and> (\<forall>names. listdir fs1 output_folder = Inr names \<longrightarrow>
          (\<forall>name \<in> set names.
             list_ex (\<lambda>ext. endswith (lower name) (lower ext)) extensions_to_remove \<longrightarrow>
               isdir fs1 (path_join output_folder name)
               \<or> (keep_readme \<and> lower name = ''readme.md'')
               \<or> (\<exists>d. stat fs1 (path_join output_folder name) = Some (File d True))))
     \<and> (\<forall>p. isdir fs p \<longrightarrow> isdir fs1 p)"
proof (cases "path_exists fs output_folder")
  case False
  with assms have eq: "fs1 = fs" by (simp add: clear_output_folder_def)
  from False have "\<not> isdir fs output_folder" by (simp add: path_exists_def isdir_def)
  then have "\<forall>names. listdir fs1 output_folder \<noteq> Inr names"
    by (simp add: listdir_def eq)
  with False eq show ?thesis by (simp add: clear_output_folder_def)
next
  case True
  with assms obtain names where names: "listdir fs output_folder = Inr names"
    and loop: "clear_loop output_folder keep_readme names (fs, 0) = (fs1, removed1)"
    by (auto simp: clear_output_folder_def split: sum.splits)
  from names have dir: "isdir fs output_folder" and names_eq: "names = entries fs output_folder"
    by (auto simp: listdir_def split: if_splits)
  from clear_loop_shrinks[OF loop] have sh: "shrinks fs fs1"
    and fin: "\<forall>n \<in> set names. \<not> removable fs1 output_folder keep_readme n"
    by blast+
  have dirs: "isdir fs1 p" if "isdir fs p" for p
    using sh that unfolding shrinks_def isdir_def by (metis node.distinct(1) option.inject)
  from sh have "set (entries fs1 output_folder) \<subseteq> set names"
    unfolding names_eq shrinks_def using entries_subset by blast
  with fin have rest: "\<forall>n \<in> set (entries fs1 output_folder). \<not> removable fs1 output_folder keep_readme n"
    by blast
  from dirs[OF dir] have dir1: "isdir fs1 output_folder" .
  then have ls1: "listdir fs1 output_folder = Inr (entries fs1 output_folder)"
    by (simp add: listdir_def)
  from dir1 have "path_exists fs1 output_folder" by (simp add: path_exists_def isdir_def)
  then have 1: "clear_output_folder fs1 output_folder keep_readme = Inr (fs1, 0)"
    using ls1 clear_loop_nothing_removable[OF rest] by (simp add: clear_output_folder_def)
  have 2: "isdir fs1 (path_join output_folder name)
         \<or> (keep_readme \<and> lower name = ''readme.md'')
         \<or> (\<exists>d. stat fs1 (path_join output_folder name) = Some (File d True))"
    if "name \<in> set (entries fs1 output_folder)"
      and "list_ex (\<lambda>ext. endswith (lower name) (lower ext)) extensions_to_remove" for name
    using not_removable_cases[OF _ that(2) entries_stat[OF that(1)]] rest that(1) by blast
  from 1 2 dirs ls1 show ?thesis by auto
qed

theorem clear_output_folder_twice_witness:
  "clear_output_folder example_output ''out'' True = Inr (example_output_cleared, 1)
   \<and> clear_output_folder example_output_cleared ''out'' True = Inr (example_output_cleared, 0)"
proof -
  have first: "clear_output_folder example_output ''out'' True = Inr (example_output_cleared, 1)"
    by code_simp
  from clear_output_folder_twice[OF first] first show ?thesis by blast
qed

text \<open>
  C9 as stated fails: after the first call on the example folder the subdirectory
  \<^verbatim>\<open>album.png\<close> and the locked file \<^verbatim>\<open>b.JPG\<close>, whose \<^verbatim>\<open>os.remove\<close> raised, are still entries
  of the folder, and neither is a \<^verbatim>\<open>readme.md\<close>.
\<close>

theorem clear_output_folder_leaves_entries:
  "clear_output_folder example_output ''out'' True = Inr (example_output_cleared, 1)
   \<and> listdir example_output_cleared ''out''
       = Inr [''album.png'', ''b.JPG'', ''README.md'', ''notes.txt'']
   \<and> snd (splitext ''album.png'') = ''.png'' \<and> snd (splitext ''b.JPG'') = ''.JPG''"
  by code_simp

section \<open>Splitting joined paths\<close>

lemma rfind_bounds: "-1 \<le> rfind xs c \<and> rfind xs c < int (length xs)"
  by (induction xs) (auto simp: Let_def)

lemma rfind_notin: "c \<notin> set xs \<Longrightarrow> rfind xs c = -1"
  by (induction xs) (auto simp: Let_def)

lemma rfind_append_notin: "c \<notin> set ys \<Longrightarrow> rfind (xs @ c # ys) c = int (length xs)"
  by (induction xs) (auto simp: Let_def rfind_notin)

lemma rstrip_sep_snoc: "last xs \<noteq> sep \<Longrightarrow> xs \<noteq> [] \<Longrightarrow> rstrip_sep (xs @ [sep]) = xs"
  by (cases xs rule: rev_cases) (auto simp: rstrip_sep_def)

lemma path_split_join:
  assumes "d \<noteq> []" and "last d \<noteq> sep" and "p \<noteq> []" and "sep \<notin> set p"
  shows "path_split (path_join d p) = (d, p)"
proof -
  from assms have "hd p \<noteq> sep" by (cases p) auto
  with assms have j: "path_join d p = d @ sep # p" by (simp add: path_join_def)
  have r: "rfind (d @ sep # p) sep = int (length d)"
    using rfind_append_notin[OF assms(4)] .
  have ne: "d @ [sep] \<noteq> replicate (Suc (length d)) sep"
  proof
    assume "d @ [sep] = replicate (Suc (length d)) sep"
    then have "set (d @ [sep]) \<subseteq> {sep}"
      by (metis set_replicate_conv_if subset_insertI empty_subsetI order_refl)
    then have "set d \<subseteq> {sep}" by simp
    moreover from assms(1) have "last d \<in> set d" by simp
    ultimately show False using assms(2) by blast
  qed
  show ?thesis
    unfolding j path_split_def r Let_def
    using ne rstrip_sep_snoc[OF assms(2,1)] by (simp add: nat_add_distrib)
qed

lemma dir_prefix_shape: "dir_prefix d = [] \<or> (\<exists>pre. dir_prefix d = pre @ [sep])"
  by (cases d rule: rev_cases) (auto simp: dir_prefix_def)

lemma rfind_after_prefix:
  assumes "sep \<notin> set p"
  shows "nat (rfind (dir_prefix d @ p) sep + 1) = length (dir_prefix d)"
proof -
  from dir_prefix_shape[of d] show ?thesis
  proof
    assume "dir_prefix d = []"
    with assms show ?thesis by (simp add: rfind_notin)
  next
    assume "\<exists>pre. dir_prefix d = pre @ [sep]"
    then obtain pre where pre: "dir_prefix d = pre @ [sep]" by blast
    from rfind_append_notin[OF assms, of pre] show ?thesis by (simp add: pre)
  qed
qed

lemma path_split_prefix:
  assumes "p \<noteq> []" and "sep \<notin> set p"
  shows "path_split (path_join d p)
         = (if dir_prefix d \<noteq> [] \<and> dir_prefix d \<noteq> replicate (length (dir_prefix d)) sep
            then rstrip_sep (dir_prefix d) else dir_prefix d, p)"
  unfolding path_join_entry[OF assms] path_split_def Let_def rfind_after_prefix[OF assms(2)]
  by simp

lemma path_split_glob_dir:
  assumes "p \<noteq> []" and "sep \<notin> set p"
  shows "path_split (path_join d p) = (glob_dir d, p)"
proof -
  have star: "''*'' \<noteq> []" "sep \<notin> set ''*''" by (simp_all add: sep_def)
  show ?thesis
    unfolding glob_dir_def dirname_def path_split_prefix[OF assms] path_split_prefix[OF star]
    by simp
qed

lemma glob_dir_clean: "d \<noteq> [] \<Longrightarrow> last d \<noteq> sep \<Longrightarrow> glob_dir d = d"
  using path_split_join[of d "''*''"] by (simp add: glob_dir_def dirname_def sep_def)

lemma glob_dir_cases:
  "glob_dir d = dir_prefix d \<and> (dir_prefix d = [] \<or> dir_prefix d = replicate (length (dir_prefix d)) sep)
   \<or> glob_dir d = rstrip_sep (dir_prefix d) \<and> dir_prefix d \<noteq> []
      \<and> dir_prefix d \<noteq> replicate (length (dir_prefix d)) sep"
proof -
  have star: "''*'' \<noteq> []" "sep \<notin> set ''*''" by (simp_all add: sep_def)
  show ?thesis
    unfolding glob_dir_def dirname_def path_split_prefix[OF star] by auto
qed

lemma set_rstrip_sep: "set (rstrip_sep s) \<subseteq> set s"
  unfolding rstrip_sep_def using set_dropWhileD[of _ "\<lambda>c. c = sep" "rev s"] by auto

lemma set_dir_prefix: "set (dir_prefix d) \<subseteq> insert sep (set d)"
  by (auto simp: dir_prefix_def)

lemma has_magic_glob_dir:
  assumes "\<not> has_magic d"
  shows "\<not> has_magic (glob_dir d)"
proof -
  have "set (glob_dir d) \<subseteq> insert sep (set d)"
    using glob_dir_cases[of d] set_rstrip_sep[of "dir_prefix d"] set_dir_prefix[of d] by auto
  moreover have "sep \<notin> set ''*?[''" by (simp add: sep_def)
  ultimately show ?thesis
    using assms unfolding has_magic_def list_ex_iff by blast
qed

lemma rstrip_sep_append_sep: "rstrip_sep (s @ [sep]) = rstrip_sep s"
  by (simp add: rstrip_sep_def)

lemma rstrip_sep_dir_prefix: "d \<noteq> [] \<Longrightarrow> rstrip_sep (dir_prefix d) = rstrip_sep d"
  by (simp add: dir_prefix_def rstrip_sep_append_sep)

lemma rstrip_sep_idem: "rstrip_sep (rstrip_sep s) = rstrip_sep s"
proof (cases "rstrip_sep s = []")
  case True
  then show ?thesis by (simp add: rstrip_sep_def)
next
  case False
  then have "dropWhile (\<lambda>c. c = sep) (rev s) \<noteq> []" by (simp add: rstrip_sep_def)
  then have "hd (dropWhile (\<lambda>c. c = sep) (rev s)) \<noteq> sep"
    using hd_dropWhile[of "\<lambda>c. c = sep" "rev s"] by blast
  then have "last (rstrip_sep s) \<noteq> sep"
    using False by (simp add: rstrip_sep_def last_rev)
  with False show ?thesis by (rule rstrip_sep_id)
qed

lemma rstrip_sep_all: "rstrip_sep s = [] \<longleftrightarrow> s = replicate (length s) sep"
proof
  assume "rstrip_sep s = []"
  then have "dropWhile (\<lambda>c. c = sep) (rev s) = []" by (simp add: rstrip_sep_def)
  then have "\<forall>c \<in> set (rev s). c = sep" by (simp add: dropWhile_eq_Nil_conv)
  then have "\<forall>c \<in> set s. c = sep" by simp
  then show "s = replicate (length s) sep"
    by (simp add: replicate_length_same)
next
  assume "s = replicate (length s) sep"
  then have "\<forall>c \<in> set s. c = sep"
    by (metis in_set_replicate)
  then have "dropWhile (\<lambda>c. c = sep) (rev s) = []" by (simp add: dropWhile_eq_Nil_conv)
  then show "rstrip_sep s = []" by (simp add: rstrip_sep_def)
qed

lemma isdir_glob_dir:
  assumes "isdir fs d"
  shows "isdir fs (glob_dir d)"
proof -
  from assms have d: "d \<noteq> []" by (auto simp: isdir_def stat_def)
  then have pre: "dir_prefix d \<noteq> []" by (simp add: dir_prefix_def)
  show ?thesis
  proof (cases "dir_prefix d = replicate (length (dir_prefix d)) sep")
    case True
    with glob_dir_cases[of d] have g: "glob_dir d = dir_prefix d" by auto
    from True have "rstrip_sep (dir_prefix d) = []" using rstrip_sep_all by blast
    with pre show ?thesis by (simp add: g isdir_def stat_def)
  next
    case False
    with glob_dir_cases[of d] have g: "glob_dir d = rstrip_sep d"
      using rstrip_sep_dir_prefix[OF d] by auto
    from False have ne: "rstrip_sep d \<noteq> []"
      using rstrip_sep_all[of "dir_prefix d"] rstrip_sep_dir_prefix[OF d] by simp
    from assms ne d have "map_of fs (rstrip_sep d) = Some Dir"
      by (auto simp: isdir_def stat_def split: option.splits node.splits if_splits)
    with ne show ?thesis
      by (simp add: g isdir_def stat_def rstrip_sep_idem)
  qed
qed

lemma glob_dir_empty: "glob_dir [] = []"
  by (simp add: glob_dir_def dirname_def path_join_def path_split_def sep_def)

section \<open>Written files\<close>

lemma write_file_map_of:
  assumes "write_file fs p data = Inr fs'"
  shows "map_of fs' = (map_of fs)(p \<mapsto> File data False)" and "p \<noteq> []" and "last p \<noteq> sep"
  using assms by (auto simp: write_file_def AList.update_conv' split: if_splits option.splits node.splits)

lemma write_file_read:
  assumes "write_file fs p data = Inr fs'"
  shows "read_file fs' p = Inr data"
  using write_file_map_of[OF assms] by (simp add: read_file_def stat_clean)

section \<open>Discovery\<close>

lemma fnmatch_literal:
  "CHR ''*'' \<notin> set ps \<Longrightarrow> CHR ''?'' \<notin> set ps \<Longrightarrow> fnmatch n ps \<longleftrightarrow> n = ps"
proof (induction n arbitrary: ps)
  case Nil
  then show ?case by (cases ps) auto
next
  case (Cons c cs)
  then show ?case by (cases ps) auto
qed

lemma fnmatch_star:
  assumes "CHR ''*'' \<notin> set suf" and "CHR ''?'' \<notin> set suf"
  shows "fnmatch n (CHR ''*'' # suf) \<longleftrightarrow> (\<exists>k \<le> length n. drop k n = suf)"
proof (induction n)
  case Nil
  show ?case using fnmatch_literal[OF assms, of "[]"] by auto
next
  case (Cons c cs)
  have "(\<exists>k \<le> length (c # cs). drop k (c # cs) = suf)
        \<longleftrightarrow> c # cs = suf \<or> (\<exists>k \<le> length cs. drop k cs = suf)"
  proof
    assume "\<exists>k \<le> length (c # cs). drop k (c # cs) = suf"
    then obtain k where k: "k \<le> length (c # cs)" "drop k (c # cs) = suf" by blast
    show "c # cs = suf \<or> (\<exists>k \<le> length cs. drop k cs = suf)"
    proof (cases k)
      case 0
      with k show ?thesis by simp
    next
      case (Suc j)
      with k show ?thesis by auto
    qed
  next
    assume "c # cs = suf \<or> (\<exists>k \<le> length cs. drop k cs = suf)"
    then show "\<exists>k \<le> length (c # cs). drop k (c # cs) = suf"
    proof
      assume "c # cs = suf"
      then have "drop 0 (c # cs) = suf" by simp
      then show ?thesis by blast
    next
      assume "\<exists>k \<le> length cs. drop k cs = suf"
      then obtain k where "k \<le> length cs" "drop k cs = suf" by blast
      then have "Suc k \<le> length (c # cs)" "drop (Suc k) (c # cs) = suf" by simp_all
      then show ?thesis by blast
    qed
  qed
  with Cons fnmatch_literal[OF assms, of "c # cs"] show ?case by simp
qed

lemma endswith_drop: "endswith s suf \<longleftrightarrow> (\<exists>k \<le> length s. drop k s = suf)"
proof
  assume "endswith s suf"
  then have "drop (length s - length suf) s = suf" "length s - length suf \<le> length s"
    by (simp_all add: endswith_def)
  then show "\<exists>k \<le> length s. drop k s = suf" by blast
next
  assume "\<exists>k \<le> length s. drop k s = suf"
  then obtain k where k: "k \<le> length s" "drop k s = suf" by blast
  then have "length suf = length s - k" by auto
  with k show "endswith s suf" by (simp add: endswith_def)
qed

lemma patterns_shape:
  "list_all (\<lambda>p. p \<noteq> [] \<and> sep \<notin> set p \<and> \<not> ishidden p) patterns"
  by (simp add: patterns_def ishidden_def sep_def)

lemma patterns_extensions: "patterns = map (\<lambda>ext. CHR ''*'' # ext) supported_extensions"
  by (simp add: patterns_def supported_extensions_def)

lemma supported_extensions_literal:
  "list_all (\<lambda>ext. CHR ''*'' \<notin> set ext \<and> CHR ''?'' \<notin> set ext) supported_extensions"
  by (simp add: supported_extensions_def)

lemma glob_listed:
  assumes "\<not> has_magic d" and "d = [] \<or> isdir fs d" and "p \<in> set patterns"
  shows "glob lib fs (path_join d p)
         = map (path_join (glob_dir d))
             (filter (\<lambda>n. fnmatch n p) (filter (\<lambda>n. \<not> ishidden n) (entries fs (glob_dir d))))"
proof -
  from assms(3) patterns_shape have p: "p \<noteq> []" "sep \<notin> set p" "\<not> ishidden p"
    by (auto simp: list_all_iff)
  from assms(2) have "glob_dir d = [] \<or> isdir fs (glob_dir d)"
    using glob_dir_empty isdir_glob_dir by auto
  then have "glob1 fs (glob_dir d) p
      = filter (\<lambda>n. fnmatch n p) (filter (\<lambda>n. \<not> ishidden n) (entries fs (glob_dir d)))"
    using p(3) by (auto simp: glob1_def)
  then show ?thesis
    unfolding glob_def path_split_glob_dir[OF p(1,2)]
    using has_magic_glob_dir[OF assms(1)] by simp
qed

lemma get_image_files_listed:
  assumes "\<not> has_magic d" and "d = [] \<or> isdir fs d"
  shows "set (get_image_files lib fs d)
         = {path_join (glob_dir d) n | n p.
              n \<in> set (entries fs (glob_dir d)) \<and> \<not> ishidden n \<and> p \<in> set patterns \<and> fnmatch n p}"
proof -
  have "set (get_image_files lib fs d) = (\<Union>p \<in> set patterns. set (glob lib fs (path_join d p)))"
    by (simp add: get_image_files_def)
  also have "\<dots> = (\<Union>p \<in> set patterns.
      set (map (path_join (glob_dir d))
        (filter (\<lambda>n. fnmatch n p) (filter (\<lambda>n. \<not> ishidden n) (entries fs (glob_dir d))))))"
    using glob_listed[OF assms] by simp
  also have "\<dots> = {path_join (glob_dir d) n | n p.
              n \<in> set (entries fs (glob_dir d)) \<and> \<not> ishidden n \<and> p \<in> set patterns \<and> fnmatch n p}"
    by auto
  finally show ?thesis .
qed

lemma get_image_files_sorted: "sorted (get_image_files lib fs d)"
  by (simp add: get_image_files_def)

lemma get_image_files_distinct: "distinct (get_image_files lib fs d)"
  by (simp add: get_image_files_def)

lemma pattern_match_extension:
  "(\<exists>p \<in> set patterns. fnmatch n p) \<longleftrightarrow> (\<exists>ext \<in> set supported_extensions. endswith n ext)"
proof -
  have "fnmatch n (CHR ''*'' # ext) \<longleftrightarrow> endswith n ext" if "ext \<in> set supported_extensions" for ext
    using that supported_extensions_literal fnmatch_star[of ext n] endswith_drop[of n ext]
    by (auto simp: list_all_iff)
  then show ?thesis unfolding patterns_extensions by auto
qed

lemma count_list_distinct: "distinct xs \<Longrightarrow> x \<in> set xs \<Longrightarrow> count_list xs x = 1"
  by (induction xs) auto

text \<open>
  C3 (amended). The list that \<^verbatim>\<open>get_image_files\<close> returns is always sorted in ascending
  order and free of duplicates. For a source directory whose path has no wildcard
  character, every entry of the directory whose name ends in one of the ten supported
  extensions and does not start with a dot is in the list exactly once, under the path
  that \<^verbatim>\<open>glob\<close> joins from the directory and the name.
\<close>

theorem get_image_files_unique_sorted:
  "sorted (get_image_files lib fs source_folder)
   \<and> distinct (get_image_files lib fs source_folder)
   \<and> (\<not> has_magic source_folder \<and> (source_folder = [] \<or> isdir fs source_folder) \<longrightarrow>
       (\<forall>name \<in> set (entries fs (glob_dir source_folder)).
          \<not> ishidden name \<and> (\<exists>ext \<in> set supported_extensions. endswith name ext) \<longrightarrow>
          count_list (get_image_files lib fs source_folder)
            (path_join (glob_dir source_folder) name) = 1))"
proof (intro conjI impI ballI)
  show "sorted (get_image_files lib fs source_folder)" by (rule get_image_files_sorted)
  show "distinct (get_image_files lib fs source_folder)" by (rule get_image_files_distinct)
next
  fix name
  assume d: "\<not> has_magic source_folder \<and> (source_folder = [] \<or> isdir fs source_folder)"
    and name: "name \<in> set (entries fs (glob_dir source_folder))"
    and ext: "\<not> ishidden name \<and> (\<exists>ext \<in> set supported_extensions. endswith name ext)"
  from ext obtain p where "p \<in> set patterns" "fnmatch name p"
    using pattern_match_extension[of name] by blast
  with d name ext have "path_join (glob_dir source_folder) name
      \<in> set (get_image_files lib fs source_folder)"
    using get_image_files_listed[of source_folder fs lib] by blast
  then show "count_list (get_image_files lib fs source_folder)
      (path_join (glob_dir source_folder) name) = 1"
    using count_list_distinct[OF get_image_files_distinct] by blast
qed

theorem get_image_files_unique_sorted_witness:
  "get_image_files example_library example_batch ''src''
     = [''src/a.heic'', ''src/a.png'', ''src/b.jpg'', ''src/c.heic'', ''src/c.png'']
   \<and> sorted (get_image_files example_library example_batch ''src'')
   \<and> count_list (get_image_files example_library example_batch ''src'') ''src/c.png'' = 1"
proof -
  have run: "get_image_files example_library example_batch ''src''
     = [''src/a.heic'', ''src/a.png'', ''src/b.jpg'', ''src/c.heic'', ''src/c.png'']"
    by code_simp
  have g: "glob_dir ''src'' = ''src''"
    by code_simp
  have d: "\<not> has_magic ''src'' \<and> (''src'' = [] \<or> isdir example_batch ''src'')"
    by code_simp
  have n: "''c.png'' \<in> set (entries example_batch (glob_dir ''src''))"
    unfolding g by code_simp
  have e: "\<not> ishidden ''c.png'' \<and> (\<exists>ext \<in> set supported_extensions. endswith ''c.png'' ext)"
    by code_simp
  have j: "path_join ''src'' ''c.png'' = ''src/c.png''"
    by code_simp
  from get_image_files_unique_sorted[of example_library example_batch "''src''"] d n e
  have "sorted (get_image_files example_library example_batch ''src'')
    \<and> count_list (get_image_files example_library example_batch ''src'')
         (path_join (glob_dir ''src'') ''c.png'') = 1"
    by blast
  with run j g show ?thesis by simp
qed

text \<open>
  C3 as stated fails for a hidden file: \<^verbatim>\<open>.b.png\<close> is a regular file directly in the source
  folder, its extension is \<^verbatim>\<open>.png\<close>, and the discovery does not return it, because a
  \<^verbatim>\<open>*\<close> of a \<^verbatim>\<open>glob\<close> pattern does not match a leading dot.
\<close>

theorem get_image_files_skips_hidden:
  "get_image_files example_library example_hidden ''src'' = [''src/a.png'']
   \<and> listdir example_hidden ''src'' = Inr [''a.png'', ''.b.png'']
   \<and> read_file example_hidden (path_join ''src'' ''.b.png'') = Inr [3, 4, 5, 6, 0]
   \<and> splitext ''.b.png'' = (''.b'', ''.png'')"
  by code_simp

text \<open>
  C10. For a source directory whose path has no wildcard character, every entry of the
  directory that a pattern matches under the rules of \<^verbatim>\<open>glob\<close> (the name matches and does
  not start with a dot) is in the result, whatever kind of node it is: nothing in
  \<^verbatim>\<open>get_image_files\<close> looks at the node. When the entry is a directory, its job in the
  batch loop fails and leaves the file system as it is.
\<close>

theorem get_image_files_includes_directories:
  assumes "\<not> has_magic source_folder" and "source_folder = [] \<or> isdir fs source_folder"
    and "name \<in> set (entries fs (glob_dir source_folder))" and "\<not> ishidden name"
    and "pattern \<in> set patterns" and "fnmatch name pattern"
  shows "path_join (glob_dir source_folder) name \<in> set (get_image_files lib fs source_folder)
     \<and> (\<forall>fs'. isdir fs' (path_join (glob_dir source_folder) name) \<longrightarrow>
          convert_one lib output_folder output_format q ps fs' (path_join (glob_dir source_folder) name)
            = (fs', False))"
proof
  show "path_join (glob_dir source_folder) name \<in> set (get_image_files lib fs source_folder)"
    using get_image_files_listed[OF assms(1,2), of lib] assms(3-6) by blast
  show "\<forall>fs'. isdir fs' (path_join (glob_dir source_folder) name) \<longrightarrow>
          convert_one lib output_folder output_format q ps fs' (path_join (glob_dir source_folder) name)
            = (fs', False)"
    by (simp add: convert_one_def convert_image_to_pdf_def convert_image_to_format_def
        read_file_def isdir_def Let_def)
qed

theorem get_image_files_includes_directories_witness:
  "isdir example_album ''src/album.png''
   \<and> ''src/album.png'' \<in> set (get_image_files example_library example_album ''src/'')
   \<and> convert_one example_library ''out'' ''png'' 95 ''letter'' example_album ''src/album.png''
       = (example_album, False)"
proof -
  have g: "glob_dir ''src/'' = ''src''"
    by code_simp
  have d: "\<not> has_magic ''src/''" "''src/'' = [] \<or> isdir example_album ''src/''"
    by code_simp+
  have n: "''album.png'' \<in> set (entries example_album (glob_dir ''src/''))" "\<not> ishidden ''album.png''"
    "''*.png'' \<in> set patterns" "fnmatch ''album.png'' ''*.png''"
    unfolding g by code_simp+
  have j: "path_join ''src'' ''album.png'' = ''src/album.png''"
    by code_simp
  have dir: "isdir example_album ''src/album.png''"
    by code_simp
  from get_image_files_includes_directories[OF d n, of example_library "''out''" "''png''" 95 "''letter''"]
    dir show ?thesis
    unfolding g j by blast
qed

section \<open>Batch statistics\<close>

lemma convert_loop_counts:
  "convert_loop lib out fmt q ps files (fs, s, k) = (fs', s', k') \<Longrightarrow> s' + k' = s + k + length files"
proof (induction files arbitrary: fs s k)
  case Nil
  then show ?case by simp
next
  case (Cons f files)
  obtain fs1 ok where one: "convert_one lib out fmt q ps fs f = (fs1, ok)"
    by (cases "convert_one lib out fmt q ps fs f")
  show ?case
  proof (cases ok)
    case True
    with one Cons.prems have "convert_loop lib out fmt q ps files (fs1, s + 1, k) = (fs', s', k')"
      by simp
    from Cons.IH[OF this] show ?thesis by simp
  next
    case False
    with one Cons.prems have "convert_loop lib out fmt q ps files (fs1, s, k + 1) = (fs', s', k')"
      by simp
    from Cons.IH[OF this] show ?thesis by simp
  qed
qed

text \<open>
  C2. Whenever \<^verbatim>\<open>convert_images\<close> returns its statistics, \<open>successful + failed = total\<close>,
  and \<open>total\<close> is the number of files that \<^verbatim>\<open>get_image_files\<close> returns for the source
  folder in this run, that is on the file system as the run finds it once the output
  folder has been created and, when asked for, cleared.
\<close>

theorem convert_images_statistics:
  assumes "convert_images lib fs source_folder output_folder output_format q ps clear_output = Inr (fs', st)"
  shows "successful st + failed st = total st
     \<and> (\<exists>fs2. prepare_output fs output_folder clear_output = Inr fs2
              \<and> total st = length (get_image_files lib fs2 source_folder))"
proof -
  from assms obtain fs2 where prep: "prepare_output fs output_folder clear_output = Inr fs2"
    by (auto simp: convert_images_def split: sum.splits)
  show ?thesis
  proof (cases "get_image_files lib fs2 source_folder = []")
    case True
    with assms prep have "st = \<lparr>total = 0, successful = 0, failed = 0\<rparr>"
      by (simp add: convert_images_def)
    with True prep show ?thesis by simp
  next
    case False
    obtain fs3 s k where loop: "convert_loop lib output_folder output_format q ps
        (get_image_files lib fs2 source_folder) (fs2, 0, 0) = (fs3, s, k)"
      by (metis prod_cases3)
    with assms prep False have st: "st = \<lparr>total = length (get_image_files lib fs2 source_folder),
        successful = s, failed = k\<rparr>"
      by (simp add: convert_images_def Let_def)
    from convert_loop_counts[OF loop] st prep show ?thesis by simp
  qed
qed

theorem convert_images_statistics_witness:
  "convert_images example_library example_batch ''src'' ''out'' ''png'' 95 ''letter'' True
     = Inr (example_converted, \<lparr>total = 5, successful = 4, failed = 1\<rparr>)
   \<and> (\<exists>fs2. prepare_output example_batch ''out'' True = Inr fs2
            \<and> length (get_image_files example_library fs2 ''src'') = 5)"
proof -
  have run: "convert_images example_library example_batch ''src'' ''out'' ''png'' 95 ''letter'' True
     = Inr (example_converted, \<lparr>total = 5, successful = 4, failed = 1\<rparr>)"
    by code_simp
  from convert_images_statistics[OF run] run show ?thesis by simp
qed

section \<open>PDF layout\<close>

lemma to_rgb_size:
  assumes "to_rgb lib img = Some rgb" and "mode img \<in> set [''RGBA'', ''LA'', ''P'', ''RGB'']"
  shows "im_size rgb = im_size img"
  using assms by (auto simp: to_rgb_def Let_def paste_def Image_new_RGB_def split: if_splits)

lemma pdf_layout_formulas:
  assumes "pdf_layout img page_size = Inr page"
  shows "drawn page = img"
    and "pagesize page = (if upper page_size = ''A4'' then A4 else letter)"
    and "let W = real (fst (im_size img)); H = real (snd (im_size img));
             PW = fst (pagesize page); PH = snd (pagesize page);
             scale = min (PW / W) (PH / H) * 0.9
         in W > 0 \<and> H > 0
            \<and> draw_width page = W * scale \<and> draw_height page = H * scale
            \<and> draw_x page = (PW - W * scale) / 2 \<and> draw_y page = (PH - H * scale) / 2"
proof -
  obtain w h where sz: "im_size img = (w, h)" by (cases "im_size img")
  define ps where "ps = (if upper page_size = ''A4'' then A4 else letter)"
  obtain PW PH where pwh: "ps = (PW, PH)" by (cases ps)
  from assms have nz: "w \<noteq> 0" "h \<noteq> 0"
    by (auto simp: pdf_layout_def sz Let_def split: prod.splits if_splits)
  with assms have page: "page =
      \<lparr>pagesize = ps, drawn = img,
       draw_x = (PW - real w * (min (PW / real w) (PH / real h) * 0.9)) / 2,
       draw_y = (PH - real h * (min (PW / real w) (PH / real h) * 0.9)) / 2,
       draw_width = real w * (min (PW / real w) (PH / real h) * 0.9),
       draw_height = real h * (min (PW / real w) (PH / real h) * 0.9)\<rparr>"
    unfolding pdf_layout_def sz Let_def ps_def[symmetric] pwh by simp
  show "drawn page = img" by (simp add: page)
  show "pagesize page = (if upper page_size = ''A4'' then A4 else letter)"
    by (simp add: page ps_def)
  show "let W = real (fst (im_size img)); H = real (snd (im_size img));
             PW = fst (pagesize page); PH = snd (pagesize page);
             scale = min (PW / W) (PH / H) * 0.9
         in W > 0 \<and> H > 0
            \<and> draw_width page = W * scale \<and> draw_height page = H * scale
            \<and> draw_x page = (PW - W * scale) / 2 \<and> draw_y page = (PH - H * scale) / 2"
    unfolding Let_def using nz by (simp add: page sz pwh)
qed

text \<open>
  C5. When \<^verbatim>\<open>convert_image_to_pdf\<close> succeeds, the page it wrote has the chosen page size
  \<open>(PW, PH)\<close> and shows the normalised image, of width \<open>W\<close> and height \<open>H\<close>, with
  \<open>scale = min (PW / W) (PH / H) * 0.9\<close>, drawn \<open>W * scale\<close> wide and \<open>H * scale\<close> high at the
  offsets \<open>(PW - W * scale) / 2\<close> and \<open>(PH - H * scale) / 2\<close>. The normalised image has the
  size of the decoded one in the modes the engine handles itself.
\<close>

theorem convert_image_to_pdf_layout:
  assumes "convert_image_to_pdf lib fs image_path output_path page_size = (fs', True)"
  shows "\<exists>data img rgb page bytes.
      read_file fs image_path = Inr data \<and> Image_open lib data = Some img
      \<and> to_rgb lib img = Some rgb
      \<and> (mode img \<in> set [''RGBA'', ''LA'', ''P'', ''RGB''] \<longrightarrow> im_size rgb = im_size img)
      \<and> Canvas_save lib page = Saved bytes \<and> read_file fs' output_path = Inr bytes
      \<and> drawn page = rgb
      \<and> pagesize page = (if upper page_size = ''A4'' then A4 else letter)
      \<and> (let W = real (fst (im_size rgb)); H = real (snd (im_size rgb));
              PW = fst (pagesize page); PH = snd (pagesize page);
              scale = min (PW / W) (PH / H) * 0.9
          in W > 0 \<and> H > 0
             \<and> draw_width page = W * scale \<and> draw_height page = H * scale
             \<and> draw_x page = (PW - W * scale) / 2 \<and> draw_y page = (PH - H * scale) / 2)"
proof -
  from assms obtain data img rgb page bytes where
    steps: "read_file fs image_path = Inr data" "Image_open lib data = Some img"
      "to_rgb lib img = Some rgb" "pdf_layout rgb page_size = Inr page"
      "Canvas_save lib page = Saved bytes" "write_file fs output_path bytes = Inr fs'"
    by (auto simp: convert_image_to_pdf_def library_save_def
        split: sum.splits option.splits save_result.splits)
  note lay = pdf_layout_formulas[OF steps(4)]
  have "mode img \<in> set [''RGBA'', ''LA'', ''P'', ''RGB''] \<longrightarrow> im_size rgb = im_size img"
    using to_rgb_size[OF steps(3)] by blast
  with steps(1,2,3,5) write_file_read[OF steps(6)] lay show ?thesis
    by blast
qed

theorem convert_image_to_pdf_layout_witness:
  "convert_image_to_pdf example_library example_batch ''src/b.jpg'' ''out/b.pdf'' ''letter''
     = (example_batch @ [(''out/b.pdf'', File [1, 2, 3] False)], True)
   \<and> (\<exists>page :: pdf_page. pagesize page = (612, 792)
         \<and> im_size (drawn page) = (1, 1)
         \<and> draw_width page = 550.8 \<and> draw_height page = 550.8
         \<and> draw_x page = 30.6 \<and> draw_y page = 120.6)"
proof -
  have run: "convert_image_to_pdf example_library example_batch ''src/b.jpg'' ''out/b.pdf'' ''letter''
     = (example_batch @ [(''out/b.pdf'', File [1, 2, 3] False)], True)"
    by code_simp
  have rd: "read_file example_batch ''src/b.jpg'' = Inr [3, 1, 2, 3, 0]"
    by code_simp
  have dec: "Image_open example_library [3, 1, 2, 3, 0]
      = Some \<lparr>mode = ''RGB'', im_size = (1, 1), pixels = [[1, 2, 3]], palette = [], info_exif = None\<rparr>"
    by code_simp
  have up: "upper ''letter'' \<noteq> ''A4''"
    by code_simp
  from convert_image_to_pdf_layout[OF run] obtain data img rgb page bytes where
    c: "read_file example_batch ''src/b.jpg'' = Inr data \<and> Image_open example_library data = Some img
      \<and> to_rgb example_library img = Some rgb
      \<and> (mode img \<in> set [''RGBA'', ''LA'', ''P'', ''RGB''] \<longrightarrow> im_size rgb = im_size img)
      \<and> Canvas_save example_library page = Saved bytes
      \<and> read_file (example_batch @ [(''out/b.pdf'', File [1, 2, 3] False)]) ''out/b.pdf'' = Inr bytes
      \<and> drawn page = rgb
      \<and> pagesize page = (if upper ''letter'' = ''A4'' then A4 else letter)
      \<and> (let W = real (fst (im_size rgb)); H = real (snd (im_size rgb));
              PW = fst (pagesize page); PH = snd (pagesize page);
              scale = min (PW / W) (PH / H) * 0.9
          in W > 0 \<and> H > 0
             \<and> draw_width page = W * scale \<and> draw_height page = H * scale
             \<and> draw_x page = (PW - W * scale) / 2 \<and> draw_y page = (PH - H * scale) / 2)"
    by (elim exE) (rule that, assumption)
  from c rd dec have img: "img = \<lparr>mode = ''RGB'', im_size = (1, 1), pixels = [[1, 2, 3]],
      palette = [], info_exif = None\<rparr>"
    by simp
  with c have sz: "im_size rgb = (1, 1)" by simp
  from c up have ps: "pagesize page = (612, 792)" by (simp add: letter_def)
  from c have dr: "drawn page = rgb" by simp
  from c have nums: "draw_width page = 550.8 \<and> draw_height page = 550.8
         \<and> draw_x page = 30.6 \<and> draw_y page = 120.6"
    unfolding Let_def sz ps by simp
  have "pagesize page = (612, 792)
         \<and> im_size (drawn page) = (1, 1)
         \<and> draw_width page = 550.8 \<and> draw_height page = 550.8
         \<and> draw_x page = 30.6 \<and> draw_y page = 120.6"
    using ps sz dr nums by simp
  then have ex: "\<exists>page :: pdf_page. pagesize page = (612, 792)
         \<and> im_size (drawn page) = (1, 1)
         \<and> draw_width page = 550.8 \<and> draw_height page = 550.8
         \<and> draw_x page = 30.6 \<and> draw_y page = 120.6"
    by blast
  from run ex show ?thesis by (rule conjI)
qed

section \<open>White background for JPEG targets\<close>

lemma blend8_transparent: "blend8 0 255 c = 255"
  by (simp add: blend8_def div255_def)

lemma blend_white_transparent:
  assumes "length rgb = 3"
  shows "map (\<lambda>(b, c). blend8 0 b c) (zip white rgb) = white"
proof -
  from assms obtain r g b where "rgb = [r, g, b]"
    by (cases rgb; cases "tl rgb"; cases "tl (tl rgb)") auto
  then show ?thesis by (simp add: white_def blend8_transparent)
qed

lemma mode_strings: "''RGBA'' \<noteq> ''LA''" "''RGBA'' \<noteq> ''P''" "''LA'' \<noteq> ''P''" "''RGBA'' \<noteq> ''RGB''"
  by simp_all

lemma expanded_mode:
  assumes "mode img \<in> set [''RGBA'', ''LA'', ''P'']"
  shows "mode (expanded img) \<in> set [''RGBA'', ''LA'']" and "im_size (expanded img) = im_size img"
    and "length (pixels (expanded img)) = length (pixels img)"
  using assms by (auto simp: expanded_def convert_P_RGBA_def)

lemma palette_lookup_length:
  assumes "list_all (\<lambda>entry. length entry = 4) pal"
  shows "length (palette_lookup pal px) = 4"
  using assms by (auto simp: palette_lookup_def list_all_length split: list.splits)

lemma expanded_pixel_rgb:
  assumes "valid_image img" and "mode img \<in> set [''RGBA'', ''LA'', ''P'']" and "i < length (pixels img)"
  shows "length (rgb_bytes (mode (expanded img)) (pixels (expanded img) ! i)) = 3"
proof -
  from assms(1,3) have len: "length (pixels img ! i) = bands (mode img)"
    by (simp add: valid_image_def list_all_length)
  from assms(1) have pal: "list_all (\<lambda>entry. length entry = 4) (palette img)"
    by (simp add: valid_image_def)
  consider "mode img = ''RGBA''" | "mode img = ''LA''" | "mode img = ''P''"
    using assms(2) by auto
  then show ?thesis
  proof cases
    case 1
    with len show ?thesis by (simp add: expanded_def rgb_bytes_def bands_def)
  next
    case 2
    with len show ?thesis
      by (cases "pixels img ! i") (simp_all add: expanded_def rgb_bytes_def bands_def)
  next
    case 3
    with assms(3) palette_lookup_length[OF pal] show ?thesis
      by (simp add: expanded_def convert_P_RGBA_def rgb_bytes_def)
  qed
qed

lemma to_rgb_composite:
  assumes "mode img \<in> set [''RGBA'', ''LA'', ''P'']"
  shows "to_rgb lib img
         = Some (paste (Image_new_RGB (im_size img) white) (expanded img) (Some (last_band (expanded img))))"
  using assms expanded_mode(1)[OF assms]
  by (simp add: to_rgb_def Let_def expanded_def[symmetric])

lemma paste_pixel:
  assumes "length (pixels bg) = length (pixels im)" and "i < length (pixels im)"
  shows "pixels (paste bg im (Some (last_band im))) ! i
         = map (\<lambda>(b, c). blend8 (last (pixels im ! i)) b c)
             (zip (pixels bg ! i) (rgb_bytes (mode im) (pixels im ! i)))"
  using assms by (simp add: paste_def last_band_def)

lemma composite_valid:
  assumes "valid_image img" and "mode img \<in> set [''RGBA'', ''LA'', ''P'']"
  defines "out \<equiv> paste (Image_new_RGB (im_size img) white) (expanded img) (Some (last_band (expanded img)))"
  shows "mode out = ''RGB''" and "im_size out = im_size img" and "valid_image out"
    and "\<forall>i < length (pixels img). last (pixels (expanded img) ! i) = 0 \<longrightarrow> pixels out ! i = white"
proof -
  let ?bg = "Image_new_RGB (im_size img) white"
  let ?im = "expanded img"
  from assms(1) have n: "length (pixels img) = fst (im_size img) * snd (im_size img)"
    by (simp add: valid_image_def)
  have len_im: "length (pixels ?im) = length (pixels img)"
    using expanded_mode(3)[OF assms(2)] .
  have len_bg: "length (pixels ?bg) = length (pixels ?im)"
    by (simp add: Image_new_RGB_def n len_im)
  show "mode out = ''RGB''" and "im_size out = im_size img"
    by (simp_all add: out_def paste_def Image_new_RGB_def)
  have len_out: "length (pixels out) = length (pixels img)"
    by (simp add: out_def paste_def last_band_def Image_new_RGB_def n len_im)
  have px: "pixels out ! i = map (\<lambda>(b, c). blend8 (last (pixels ?im ! i)) b c)
             (zip white (rgb_bytes (mode ?im) (pixels ?im ! i)))" if "i < length (pixels img)" for i
  proof -
    from that have "i < length (pixels ?im)" by (simp add: len_im)
    from paste_pixel[OF len_bg this] that show ?thesis
      by (simp add: out_def Image_new_RGB_def n)
  qed
  have three: "length (pixels out ! i) = 3" if "i < length (pixels img)" for i
    using px[OF that] expanded_pixel_rgb[OF assms(1,2) that] by (simp add: white_def)
  show "valid_image out"
    unfolding valid_image_def
  proof (intro conjI)
    show "length (pixels out) = fst (im_size out) * snd (im_size out)"
      using len_out n \<open>im_size out = im_size img\<close> by simp
    show "list_all (\<lambda>px. length px = bands (mode out)) (pixels out)"
      using three len_out \<open>mode out = ''RGB''\<close> by (simp add: list_all_length bands_def)
    show "list_all (\<lambda>entry. length entry = 4) (palette out)"
      by (simp add: out_def paste_def Image_new_RGB_def)
  qed
  show "\<forall>i < length (pixels img). last (pixels ?im ! i) = 0 \<longrightarrow> pixels out ! i = white"
  proof (intro allI impI)
    fix i assume i: "i < length (pixels img)" and a: "last (pixels ?im ! i) = 0"
    from px[OF i] a blend_white_transparent[OF expanded_pixel_rgb[OF assms(1,2) i]]
    show "pixels out ! i = white" by simp
  qed
qed

text \<open>
  C6. For a JPEG-family target and a decoded image of mode RGBA, LA or P,
  \<^verbatim>\<open>convert_image_to_format\<close> returns the white RGB background of the size of the image with
  the image (a palette image first expanded to RGBA) pasted under its last band as the
  mask. The result has mode RGB and three bands in every pixel, so no alpha channel, and
  every pixel whose source alpha is 0 is white.
\<close>

theorem jpeg_target_composited_on_white:
  assumes "read_file fs image_path = Inr data" and "Image_open lib data = Some img"
    and "valid_image img"
    and "upper output_format = ''JPG'' \<or> upper output_format = ''JPEG''"
    and "mode img \<in> set [''RGBA'', ''LA'', ''P'']"
  shows "\<exists>out. convert_image_to_format lib fs image_path output_format quality
                 = Some (out, info_exif img)
        \<and> out = paste (Image_new_RGB (im_size img) white) (expanded img)
                   (Some (last_band (expanded img)))
        \<and> mode out = ''RGB'' \<and> im_size out = im_size img \<and> valid_image out
        \<and> (\<forall>i < length (pixels img).
              last (pixels (expanded img) ! i) = 0 \<longrightarrow> pixels out ! i = white)"
proof -
  have "convert_image_to_format lib fs image_path output_format quality
        = Some (paste (Image_new_RGB (im_size img) white) (expanded img)
                  (Some (last_band (expanded img))), info_exif img)"
    using assms(1,2,4) to_rgb_composite[OF assms(5), of lib]
    by (simp add: convert_image_to_format_def Let_def)
  with composite_valid[OF assms(3,5)] show ?thesis by blast
qed

theorem jpeg_target_composited_on_white_witness:
  "convert_image_to_format example_library example_batch ''src/a.heic'' ''jpg'' 95
     = Some (\<lparr>mode = ''RGB'', im_size = (1, 1), pixels = [[255, 255, 255]], palette = [],
               info_exif = None\<rparr>, Some [0])
   \<and> Image_open example_library [4, 10, 20, 30, 0]
     = Some \<lparr>mode = ''RGBA'', im_size = (1, 1), pixels = [[10, 20, 30, 0]], palette = [],
              info_exif = Some [0]\<rparr>"
proof -
  let ?img = "\<lparr>mode = ''RGBA'', im_size = (1, 1), pixels = [[10, 20, 30, 0 :: byte]], palette = [],
              info_exif = Some [0 :: byte]\<rparr>"
  have rd: "read_file example_batch ''src/a.heic'' = Inr [4, 10, 20, 30, 0]"
    by code_simp
  have dec: "Image_open example_library [4, 10, 20, 30, 0] = Some ?img"
    by code_simp
  have v: "valid_image ?img"
    by (simp add: valid_image_def bands_def)
  have f: "upper ''jpg'' = ''JPG'' \<or> upper ''jpg'' = ''JPEG''"
    by code_simp
  have m: "mode ?img \<in> set [''RGBA'', ''LA'', ''P'']"
    by simp
  have comp: "paste (Image_new_RGB (im_size ?img) white) (expanded ?img) (Some (last_band (expanded ?img)))
      = \<lparr>mode = ''RGB'', im_size = (1, 1), pixels = [[255, 255, 255]], palette = [], info_exif = None\<rparr>"
    by (simp add: paste_def Image_new_RGB_def expanded_def last_band_def rgb_bytes_def white_def
        blend8_transparent)
  from jpeg_target_composited_on_white[OF rd dec v f m, of 95] comp
  have conv: "convert_image_to_format example_library example_batch ''src/a.heic'' ''jpg'' 95
     = Some (\<lparr>mode = ''RGB'', im_size = (1, 1), pixels = [[255, 255, 255]], palette = [],
               info_exif = None\<rparr>, Some [0])"
    by auto
  from conv dec show ?thesis by (rule conjI)
qed

section \<open>Command-line choices\<close>

lemmas case_defs = upper_def lower_def upper_char_def lower_char_def ascii_lowercase_def
  ascii_uppercase_def
lemma u1: "upper ''pdf'' = ''PDF''" "upper ''png'' = ''PNG''" "upper ''jpg'' = ''JPG''" "upper ''jpeg'' = ''JPEG''"
  "upper ''letter'' = ''LETTER''" "upper ''a4'' = ''A4''"
  "upper ''PDF'' = ''PDF''" "upper ''PNG'' = ''PNG''" "upper ''JPG'' = ''JPG''" "upper ''JPEG'' = ''JPEG''"
  "upper ''LETTER'' = ''LETTER''" "upper ''A4'' = ''A4''"
  by (simp_all add: case_defs)
lemma l1: "lower ''PDF'' = ''pdf''" "lower ''PNG'' = ''png''" "lower ''JPG'' = ''jpg''" "lower ''JPEG'' = ''jpeg''"
  "lower ''LETTER'' = ''letter''" "lower ''A4'' = ''a4''"
  "lower ''pdf'' = ''pdf''" "lower ''png'' = ''png''" "lower ''jpg'' = ''jpg''" "lower ''jpeg'' = ''jpeg''"
  "lower ''letter'' = ''letter''" "lower ''a4'' = ''a4''"
  by (simp_all add: case_defs)
lemma format_choices_set:
  "set format_choices = set [''pdf'', ''png'', ''jpg'', ''jpeg''] \<union> upper ` set [''pdf'', ''png'', ''jpg'', ''jpeg'']"
  unfolding format_choices_def by (simp add: u1 insert_commute)
lemma page_size_choices_set:
  "set page_size_choices = set [''letter'', ''a4''] \<union> upper ` set [''letter'', ''a4'']"
  unfolding page_size_choices_def by (simp add: u1 insert_commute)

lemma upper_lower_format_choices: "list_all (\<lambda>v. upper v = upper (lower v)) format_choices"
  by (simp add: format_choices_def u1 l1)

lemma upper_lower_page_size_choices: "list_all (\<lambda>v. upper v = upper (lower v)) page_size_choices"
  by (simp add: page_size_choices_def u1 l1)

lemma parse_args_eq:
  "parse_args env opts =
    (if (case opt_format opts of None \<Rightarrow> True | Some v \<Rightarrow> v \<in> set format_choices)
        \<and> (case opt_page_size opts of None \<Rightarrow> True | Some v \<Rightarrow> v \<in> set page_size_choices)
     then Inr \<lparr>args_source = (case opt_source opts of None \<Rightarrow>
                    path_join (path_join (dirname (script_dir env)) ''images'') ''source'' | Some v \<Rightarrow> v),
               args_output = (case opt_output opts of None \<Rightarrow>
                    path_join (path_join (dirname (script_dir env)) ''images'') ''output'' | Some v \<Rightarrow> v),
               args_format = (case opt_format opts of None \<Rightarrow> ''png'' | Some v \<Rightarrow> v),
               args_quality = (case opt_quality opts of None \<Rightarrow> 95 | Some q \<Rightarrow> q),
               args_page_size = (case opt_page_size opts of None \<Rightarrow> ''letter'' | Some v \<Rightarrow> v),
               args_verbose = opt_verbose opts,
               args_no_clear = opt_no_clear opts\<rparr>
     else Inl (SystemExit 2))"
proof (cases "opt_format opts")
  case None
  show ?thesis
    by (cases "opt_page_size opts") (simp_all add: parse_args_def check_choice_def Let_def None)
next
  case (Some v)
  show ?thesis
    by (cases "opt_page_size opts") (simp_all add: parse_args_def check_choice_def Let_def Some)
qed

lemma default_choices: "''png'' \<in> set format_choices" "''letter'' \<in> set page_size_choices"
  by (simp_all add: format_choices_def page_size_choices_def)

lemma parse_args_choices:
  assumes "parse_args env opts = Inr a"
  shows "args_format a \<in> set format_choices" and "args_page_size a \<in> set page_size_choices"
proof -
  from assms have ok: "case opt_format opts of None \<Rightarrow> True | Some v \<Rightarrow> v \<in> set format_choices"
    "case opt_page_size opts of None \<Rightarrow> True | Some v \<Rightarrow> v \<in> set page_size_choices"
    and a: "args_format a = (case opt_format opts of None \<Rightarrow> ''png'' | Some v \<Rightarrow> v)"
      "args_page_size a = (case opt_page_size opts of None \<Rightarrow> ''letter'' | Some v \<Rightarrow> v)"
    unfolding parse_args_eq by (auto split: if_splits)
  show "args_format a \<in> set format_choices"
    using ok(1) a(1) default_choices(1) by (cases "opt_format opts") simp_all
  show "args_page_size a \<in> set page_size_choices"
    using ok(2) a(2) default_choices(2) by (cases "opt_page_size opts") simp_all
qed

text \<open>
  C7 (amended). The parser accepts a command line exactly when the format value, if given,
  is one of \<^verbatim>\<open>pdf\<close>, \<^verbatim>\<open>png\<close>, \<^verbatim>\<open>jpg\<close>, \<^verbatim>\<open>jpeg\<close> written all in lower case or all in upper
  case, and the page size, if given, is \<^verbatim>\<open>letter\<close> or \<^verbatim>\<open>a4\<close> written all in lower case or all
  in upper case; any other spelling ends the run with exit status 2. An accepted value and
  its lower-case spelling have the same upper-case form, which is all the engine looks at,
  so both select the same target.
\<close>

theorem choices_exact_spellings:
  "((\<exists>a. parse_args env opts = Inr a) \<longleftrightarrow>
      (case opt_format opts of None \<Rightarrow> True
       | Some v \<Rightarrow> v \<in> set [''pdf'', ''png'', ''jpg'', ''jpeg'']
                    \<union> upper ` set [''pdf'', ''png'', ''jpg'', ''jpeg''])
      \<and> (case opt_page_size opts of None \<Rightarrow> True
         | Some v \<Rightarrow> v \<in> set [''letter'', ''a4''] \<union> upper ` set [''letter'', ''a4'']))
   \<and> ((\<nexists>a. parse_args env opts = Inr a) \<longrightarrow> parse_args env opts = Inl (SystemExit 2))
   \<and> (\<forall>a. parse_args env opts = Inr a \<longrightarrow>
         upper (args_format a) = upper (lower (args_format a))
         \<and> upper (args_page_size a) = upper (lower (args_page_size a)))"
proof (intro conjI)
  show "(\<exists>a. parse_args env opts = Inr a) \<longleftrightarrow>
      (case opt_format opts of None \<Rightarrow> True
       | Some v \<Rightarrow> v \<in> set [''pdf'', ''png'', ''jpg'', ''jpeg'']
                    \<union> upper ` set [''pdf'', ''png'', ''jpg'', ''jpeg''])
      \<and> (case opt_page_size opts of None \<Rightarrow> True
         | Some v \<Rightarrow> v \<in> set [''letter'', ''a4''] \<union> upper ` set [''letter'', ''a4''])"
    unfolding format_choices_set[symmetric] page_size_choices_set[symmetric] parse_args_eq
    by simp
  show "(\<nexists>a. parse_args env opts = Inr a) \<longrightarrow> parse_args env opts = Inl (SystemExit 2)"
    unfolding parse_args_eq by simp
  show "\<forall>a. parse_args env opts = Inr a \<longrightarrow>
         upper (args_format a) = upper (lower (args_format a))
         \<and> upper (args_page_size a) = upper (lower (args_page_size a))"
    using parse_args_choices upper_lower_format_choices upper_lower_page_size_choices
    unfolding list_all_iff by blast
qed

theorem choices_exact_spellings_witness:
  "parse_args example_environment (example_options\<lparr>opt_format := Some ''JPEG'', opt_page_size := Some ''a4''\<rparr>)
     = Inr \<lparr>args_source = ''src'', args_output = ''out'', args_format = ''JPEG'', args_quality = 95,
            args_page_size = ''a4'', args_verbose = False, args_no_clear = False\<rparr>
   \<and> upper ''JPEG'' = upper (lower ''JPEG'') \<and> upper ''a4'' = upper (lower ''a4'')"
proof -
  have p: "parse_args example_environment (example_options\<lparr>opt_format := Some ''JPEG'', opt_page_size := Some ''a4''\<rparr>)
     = Inr \<lparr>args_source = ''src'', args_output = ''out'', args_format = ''JPEG'', args_quality = 95,
            args_page_size = ''a4'', args_verbose = False, args_no_clear = False\<rparr>"
    by code_simp
  from choices_exact_spellings[of example_environment
      "example_options\<lparr>opt_format := Some ''JPEG'', opt_page_size := Some ''a4''\<rparr>"] p
  show ?thesis by simp
qed

text \<open>
  C7 as stated fails: the mixed-case spellings \<^verbatim>\<open>Pdf\<close> and \<^verbatim>\<open>Letter\<close> are not elements of the
  \<^verbatim>\<open>choices\<close> lists, and the parser exits with status 2.
\<close>

theorem mixed_case_choice_rejected:
  "parse_args example_environment (example_options\<lparr>opt_format := Some ''Pdf''\<rparr>) = Inl (SystemExit 2)
   \<and> parse_args example_environment (example_options\<lparr>opt_page_size := Some ''Letter''\<rparr>) = Inl (SystemExit 2)
   \<and> exit_code (main example_library example_environment example_batch
        (example_options\<lparr>opt_format := Some ''Pdf''\<rparr>)) = 2
   \<and> lower ''Pdf'' = ''pdf'' \<and> lower ''Letter'' = ''letter''"
  by code_simp

section \<open>Quality validation\<close>

text \<open>
  C8. For a command line that the parser accepts, once the logging is set up: a quality
  below 1 or above 100 ends \<^verbatim>\<open>main\<close> with exit status 1 and the error entry ``Quality must be
  between 1 and 100'', with the file system as the logging setup left it and no statistics,
  so nothing was discovered or converted; a quality from 1 to 100 passes the check, and
  with an existing source directory \<^verbatim>\<open>main\<close> calls \<^verbatim>\<open>convert_images\<close> and ends as that call
  decides.
\<close>

theorem main_quality_boundary:
  assumes "parse_args env opts = Inr a" and "setup_logging env fs = (fs1, Inr log_file)"
  shows "(args_quality a < 1 \<or> args_quality a > 100 \<longrightarrow>
            main lib env fs opts =
              \<lparr>exit_code = 1, error_log = [Quality_must_be_between_1_and_100], final_fs = fs1,
               run_stats = None\<rparr>)
       \<and> (1 \<le> args_quality a \<and> args_quality a \<le> 100 \<and> isdir fs1 (args_source a) \<longrightarrow>
            main lib env fs opts =
              (case convert_images lib fs1 (args_source a) (args_output a) (args_format a)
                      (args_quality a) (args_page_size a) (\<not> args_no_clear a) of
                 Inl e \<Rightarrow> \<lparr>exit_code = 1, error_log = [Unexpected_error e], final_fs = fs1,
                            run_stats = None\<rparr>
               | Inr (fs2, st) \<Rightarrow>
                   \<lparr>exit_code = (if failed st > 0 then 1 else 0), error_log = [], final_fs = fs2,
                    run_stats = Some st\<rparr>))"
proof (intro conjI impI)
  assume "args_quality a < 1 \<or> args_quality a > 100"
  with assms show "main lib env fs opts =
              \<lparr>exit_code = 1, error_log = [Quality_must_be_between_1_and_100], final_fs = fs1,
               run_stats = None\<rparr>"
    by (simp add: main_def)
next
  assume q: "1 \<le> args_quality a \<and> args_quality a \<le> 100 \<and> isdir fs1 (args_source a)"
  then have "path_exists fs1 (args_source a)" by (simp add: path_exists_def isdir_def)
  with q assms show "main lib env fs opts =
              (case convert_images lib fs1 (args_source a) (args_output a) (args_format a)
                      (args_quality a) (args_page_size a) (\<not> args_no_clear a) of
                 Inl e \<Rightarrow> \<lparr>exit_code = 1, error_log = [Unexpected_error e], final_fs = fs1,
                            run_stats = None\<rparr>
               | Inr (fs2, st) \<Rightarrow>
                   \<lparr>exit_code = (if failed st > 0 then 1 else 0), error_log = [], final_fs = fs2,
                    run_stats = Some st\<rparr>)"
    by (simp add: main_def split: sum.splits)
qed

theorem main_quality_boundary_witness:
  "main example_library example_environment example_batch (example_options\<lparr>opt_quality := Some 0\<rparr>)
     = \<lparr>exit_code = 1, error_log = [Quality_must_be_between_1_and_100], final_fs = example_logged,
        run_stats = None\<rparr>
   \<and> main example_library example_environment example_batch (example_options\<lparr>opt_quality := Some 100\<rparr>)
     = \<lparr>exit_code = 1, error_log = [], final_fs = example_finished,
        run_stats = Some \<lparr>total = 5, successful = 4, failed = 1\<rparr>\<rparr>"
proof -
  have log: "setup_logging example_environment example_batch
      = (example_logged, Inr ''/app/logs/convert_images_20240131_120000.log'')"
    by code_simp
  have p: "parse_args example_environment (example_options\<lparr>opt_quality := Some q\<rparr>)
      = Inr \<lparr>args_source = ''src'', args_output = ''out'', args_format = ''png'', args_quality = q,
            args_page_size = ''letter'', args_verbose = False, args_no_clear = False\<rparr>" for q
    by (simp add: parse_args_eq example_options_def default_choices)
  have src: "isdir example_logged ''src''"
    by code_simp
  have run: "convert_images example_library example_logged ''src'' ''out'' ''png'' 100 ''letter'' True
      = Inr (example_finished, \<lparr>total = 5, successful = 4, failed = 1\<rparr>)"
    by code_simp
  from main_quality_boundary[OF p[of 0] log, of example_library]
  have low: "main example_library example_environment example_batch (example_options\<lparr>opt_quality := Some 0\<rparr>)
     = \<lparr>exit_code = 1, error_log = [Quality_must_be_between_1_and_100], final_fs = example_logged,
        run_stats = None\<rparr>"
    by simp
  from main_quality_boundary[OF p[of 100] log, of example_library] src run
  have high: "main example_library example_environment example_batch (example_options\<lparr>opt_quality := Some 100\<rparr>)
     = \<lparr>exit_code = 1, error_log = [], final_fs = example_finished,
        run_stats = Some \<lparr>total = 5, successful = 4, failed = 1\<rparr>\<rparr>"
    by simp
  from low high show ?thesis by blast
qed

section \<open>Base names and output paths\<close>

lemma rfind_negative: "rfind xs c < 0 \<Longrightarrow> c \<notin> set xs"
  by (induction xs) (auto simp: Let_def split: if_splits)

lemma drop_after_rfind: "c \<notin> set (drop (nat (rfind xs c + 1)) xs)"
proof (induction xs)
  case Nil
  show ?case by simp
next
  case (Cons x xs)
  show ?case
  proof (cases "rfind xs c \<ge> 0")
    case True
    then have "nat (rfind (x # xs) c + 1) = Suc (nat (rfind xs c + 1))"
      by (simp add: Let_def nat_add_distrib)
    with Cons show ?thesis by simp
  next
    case False
    then have "c \<notin> set xs" using rfind_negative[of xs c] by simp
    with False show ?thesis by (auto simp: Let_def)
  qed
qed

lemma basename_no_sep: "sep \<notin> set (basename p)"
  unfolding basename_def by (rule drop_after_rfind)

lemma splitext_fst_subset: "set (fst (splitext n)) \<subseteq> set n"
  by (auto simp: splitext_def Let_def dest: in_set_takeD)

lemma base_name_no_sep: "sep \<notin> set (base_name p)"
  using basename_no_sep[of p] splitext_fst_subset[of "basename p"] by (auto simp: base_name_def)

lemma output_ext_shape: "output_ext fmt \<noteq> [] \<and> hd (output_ext fmt) = CHR ''.''"
  by (simp add: output_ext_def)

lemma target_path_eq:
  "target_path out fmt f = dir_prefix out @ base_name f @ output_ext fmt"
proof -
  let ?x = "base_name f @ output_ext fmt"
  have "?x \<noteq> []" using output_ext_shape[of fmt] by simp
  moreover have "hd ?x \<noteq> sep"
  proof (cases "base_name f")
    case Nil
    then show ?thesis using output_ext_shape[of fmt] by (simp add: sep_def)
  next
    case (Cons b bs)
    then show ?thesis using base_name_no_sep[of f] by auto
  qed
  ultimately show ?thesis
    by (simp add: target_path_def path_join_def dir_prefix_def)
qed

lemma target_path_inj:
  "target_path out fmt g = target_path out fmt f \<longleftrightarrow> base_name g = base_name f"
  by (simp add: target_path_eq)

lemma glob1_entries: "set (glob1 fs d pattern) \<subseteq> set (entries fs d)"
  by (auto simp: glob1_def Let_def split: if_splits)

lemma entries_names:
  assumes "n \<in> set (entries fs d)"
  shows "n \<noteq> []" and "sep \<notin> set n"
proof -
  from assms obtain p where "entry_name d p = Some n"
    by (force simp: entries_def List.map_filter_def)
  from entry_name_SomeD(2,3)[OF this] show "n \<noteq> []" and "sep \<notin> set n" .
qed

lemma discovered_clean:
  assumes "g \<in> set (get_image_files lib fs source_folder)"
  shows "g \<noteq> [] \<and> last g \<noteq> sep"
proof -
  from assms obtain pattern where "g \<in> set (glob lib fs (path_join source_folder pattern))"
    by (auto simp: get_image_files_def)
  then obtain d n b where "g = path_join d n" "n \<in> set (glob1 fs d b)"
    by (auto simp: glob_def Let_def split: prod.splits)
  with glob1_entries have "g = path_join d n" "n \<in> set (entries fs d)" by blast+
  with entries_names entry_path_clean show ?thesis by metis
qed

lemma sorted_distinct_split:
  assumes "sorted xs" and "distinct xs" and "f \<in> set xs"
  shows "\<exists>pre post. xs = pre @ f # post \<and> (\<forall>g \<in> set post. f < g)"
proof -
  from assms(3) obtain pre post where xs: "xs = pre @ f # post"
    by (meson split_list)
  from assms(1) have "\<forall>g \<in> set post. f \<le> g"
    unfolding xs by (simp add: sorted_append)
  moreover from assms(2) have "f \<notin> set post"
    unfolding xs by simp
  ultimately have "\<forall>g \<in> set post. f < g" by (metis order_le_imp_less_or_eq)
  with xs show ?thesis by blast
qed

section \<open>Jobs of the batch loop\<close>

lemma save_as_image_eq:
  "save_as_image lib fs img output_path output_format quality exif_data =
    library_save fs output_path (removes_created lib)
      (Image_save lib img (build_kwargs output_format quality exif_data))"
  by (simp add: save_as_image_def build_kwargs_def Let_def)

lemma convert_one_eq:
  "convert_one lib out fmt q ps fs f =
    library_save fs (target_path out fmt f) (job_cleanup lib fmt)
      (job_output lib fmt q ps (read_file fs f))"
proof (cases "upper fmt = ''PDF''")
  case True
  then show ?thesis
    by (simp add: convert_one_def convert_image_to_pdf_def job_output_def job_cleanup_def
        target_path_def base_name_def library_save_def Let_def split: sum.splits option.splits)
next
  case False
  then show ?thesis
    by (simp add: convert_one_def convert_image_to_format_def save_as_image_eq job_output_def
        job_cleanup_def target_path_def base_name_def library_save_def Let_def
        split: sum.splits option.splits)
qed

lemma write_file_writable: "(\<exists>fs'. write_file fs p data = Inr fs') \<longleftrightarrow> writable fs p"
  by (auto simp: write_file_def writable_def split: option.splits node.splits)

lemma read_file_map_of:
  assumes "map_of fs (rstrip_sep p) = map_of fs' (rstrip_sep p)"
  shows "read_file fs p = read_file fs' p"
  using assms by (simp add: read_file_def stat_def)

lemma library_save_elsewhere:
  assumes "library_save fs p c r = (fs1, ok)" and "q \<noteq> p"
  shows "map_of fs1 q = map_of fs q"
  using assms
  by (auto simp: library_save_def write_file_def AList.update_conv' AList.delete_conv'
      split: save_result.splits option.splits node.splits sum.splits if_splits)

lemma library_save_there:
  assumes "library_save fs p c r = (fs1, ok)" and "p \<noteq> []" and "last p \<noteq> sep"
  shows "map_of fs1 p = node_after c (map_of fs p) r"
  using assms
  by (auto simp: library_save_def write_file_def node_after_def AList.update_conv'
      AList.delete_conv' split: save_result.splits option.splits node.splits sum.splits if_splits)

lemma library_save_succeeded:
  assumes "library_save fs p c r = (fs1, True)"
  shows "\<exists>bytes. r = Saved bytes \<and> write_file fs p bytes = Inr fs1"
  using assms
  by (auto simp: library_save_def split: save_result.splits option.splits sum.splits if_splits)

lemma library_save_saved:
  assumes "write_file fs p bytes = Inr fs1"
  shows "library_save fs p c (Saved bytes) = (fs1, True)"
  using assms by (simp add: library_save_def)

lemma library_save_writable:
  assumes "library_save fs p c r = (fs1, ok)" and "writable fs q"
  shows "writable fs1 q"
proof (cases "q = p")
  case False
  with library_save_elsewhere[OF assms(1)] assms(2) show ?thesis by (simp add: writable_def)
next
  case True
  with assms(2) have shape: "p \<noteq> []" "last p \<noteq> sep" by (simp_all add: writable_def)
  from library_save_there[OF assms(1) shape] assms(2) True show ?thesis
    by (auto simp: writable_def node_after_def split: option.splits node.splits save_result.splits if_splits)
qed

lemma convert_loop_append:
  "convert_loop lib out fmt q ps (xs @ ys) (fs, s, k)
   = convert_loop lib out fmt q ps ys (convert_loop lib out fmt q ps xs (fs, s, k))"
proof (induction xs arbitrary: fs s k)
  case Nil
  show ?case by simp
next
  case (Cons x xs)
  obtain fs1 ok where one: "convert_one lib out fmt q ps fs x = (fs1, ok)"
    by (cases "convert_one lib out fmt q ps fs x")
  show ?case using Cons.IH one by (cases ok) simp_all
qed

lemma convert_loop_frame:
  assumes "convert_loop lib out fmt q ps files (fs, s, k) = (fs', s', k')"
  shows "(\<forall>p. p \<notin> target_path out fmt ` set files \<longrightarrow> map_of fs' p = map_of fs p)
       \<and> (\<forall>p. writable fs p \<longrightarrow> writable fs' p)"
  using assms
proof (induction files arbitrary: fs s k)
  case Nil
  then show ?case by simp
next
  case (Cons f files)
  obtain fs1 ok where one: "convert_one lib out fmt q ps fs f = (fs1, ok)"
    by (cases "convert_one lib out fmt q ps fs f")
  obtain s1 k1 where rest: "convert_loop lib out fmt q ps files (fs1, s1, k1) = (fs', s', k')"
    using Cons.prems one by (cases ok) auto
  from Cons.IH[OF rest] have ih:
    "\<forall>p. p \<notin> target_path out fmt ` set files \<longrightarrow> map_of fs' p = map_of fs1 p"
    "\<forall>p. writable fs1 p \<longrightarrow> writable fs' p"
    by blast+
  have "map_of fs1 p = map_of fs p" if "p \<noteq> target_path out fmt f" for p
    using library_save_elsewhere[OF one[unfolded convert_one_eq] that] .
  with ih(1) have 1: "\<forall>p. p \<notin> target_path out fmt ` set (f # files) \<longrightarrow> map_of fs' p = map_of fs p"
    by simp
  from ih(2) library_save_writable[OF one[unfolded convert_one_eq]]
  have 2: "\<forall>p. writable fs p \<longrightarrow> writable fs' p"
    by blast
  from 1 2 show ?case by blast
qed

lemma convert_loop_keeps_target:
  assumes "convert_loop lib out fmt q ps post (fs, s, k) = (fs', s', k')"
    and "T \<noteq> []" and "last T \<noteq> sep"
    and "\<forall>g \<in> set post. g \<noteq> [] \<and> last g \<noteq> sep"
    and "\<forall>g \<in> set post. \<forall>h \<in> set post. target_path out fmt h \<noteq> g"
    and "\<forall>g \<in> set post. target_path out fmt g = T \<longrightarrow>
           node_after (job_cleanup lib fmt) (map_of fs T) (job_output lib fmt q ps (read_file fs g))
             = map_of fs T"
  shows "map_of fs' T = map_of fs T"
  using assms
proof (induction post arbitrary: fs s k)
  case Nil
  then show ?case by simp
next
  case (Cons g post)
  obtain fs1 ok where one: "convert_one lib out fmt q ps fs g = (fs1, ok)"
    by (cases "convert_one lib out fmt q ps fs g")
  note save = one[unfolded convert_one_eq]
  obtain s1 k1 where rest: "convert_loop lib out fmt q ps post (fs1, s1, k1) = (fs', s', k')"
    using Cons.prems(1) one by (cases ok) auto
  have T: "map_of fs1 T = map_of fs T"
  proof (cases "target_path out fmt g = T")
    case True
    from library_save_there[OF save] True Cons.prems(2,3)
    have "map_of fs1 T
        = node_after (job_cleanup lib fmt) (map_of fs T) (job_output lib fmt q ps (read_file fs g))"
      by simp
    with Cons.prems(6) True show ?thesis by simp
  next
    case False
    then show ?thesis using library_save_elsewhere[OF save, of T] by blast
  qed
  have reads: "read_file fs1 h = read_file fs h" if "h \<in> set post" for h
  proof -
    from that Cons.prems(4) have "rstrip_sep h = h" by (simp add: rstrip_sep_id)
    moreover from that Cons.prems(5) have "h \<noteq> target_path out fmt g" by auto
    ultimately show ?thesis
      using library_save_elsewhere[OF save, of h] read_file_map_of[of fs1 h fs] by simp
  qed
  have "map_of fs' T = map_of fs1 T"
  proof (rule Cons.IH[OF rest Cons.prems(2,3)])
    show "\<forall>g \<in> set post. g \<noteq> [] \<and> last g \<noteq> sep" using Cons.prems(4) by simp
    show "\<forall>g \<in> set post. \<forall>h \<in> set post. target_path out fmt h \<noteq> g" using Cons.prems(5) by simp
    show "\<forall>g \<in> set post. target_path out fmt g = T \<longrightarrow>
           node_after (job_cleanup lib fmt) (map_of fs1 T) (job_output lib fmt q ps (read_file fs1 g))
             = map_of fs1 T"
      using Cons.prems(6) reads T by simp
  qed
  with T show ?case by simp
qed

section \<open>Collisions of output names\<close>

lemma read_file_written:
  assumes "map_of fs p = Some (File bytes l)" and "p \<noteq> []" and "last p \<noteq> sep"
  shows "read_file fs p = Inr bytes"
  using assms by (simp add: read_file_def stat_clean)

text \<open>
  C4 (amended). All discovered files with one base name have the same output path. In a
  run in which no discovered file lies at an output path, take a file whose job succeeds
  when run on the file system as discovered, and let the job of every discovered file
  that shares its base name and sorts after it, when run on the file system that this
  job leaves, fail and leave that file system as it is (as the job of a source that cannot
  be read or decoded does). Then at the end of the run the file at the shared output
  path holds what the job of that file wrote.
\<close>

theorem collision_last_success_wins:
  assumes run: "convert_images lib fs source_folder output_folder output_format q ps clear_output
                = Inr (fs', st)"
    and prep: "prepare_output fs output_folder clear_output = Inr fs2"
    and apart: "\<forall>g \<in> set (get_image_files lib fs2 source_folder).
                 \<forall>h \<in> set (get_image_files lib fs2 source_folder).
                   target_path output_folder output_format h \<noteq> g"
    and f: "f \<in> set (get_image_files lib fs2 source_folder)"
    and ok: "convert_one lib output_folder output_format q ps fs2 f = (fs_f, True)"
    and later: "\<forall>g \<in> set (get_image_files lib fs2 source_folder).
                 f < g \<and> base_name g = base_name f \<longrightarrow>
                 convert_one lib output_folder output_format q ps fs_f g = (fs_f, False)"
  shows "read_file fs' (target_path output_folder output_format f)
           = read_file fs_f (target_path output_folder output_format f)
       \<and> (\<exists>bytes. read_file fs' (target_path output_folder output_format f) = Inr bytes)"
proof -
  let ?files = "get_image_files lib fs2 source_folder"
  let ?T = "target_path output_folder output_format f"
  let ?tgt = "target_path output_folder output_format"
  let ?out = "\<lambda>fs g. job_output lib output_format q ps (read_file fs g)"
  let ?c = "job_cleanup lib output_format"
  from f have ne: "?files \<noteq> []" by auto
  obtain s k where loop: "convert_loop lib output_folder output_format q ps ?files (fs2, 0, 0) = (fs', s, k)"
    using run prep ne by (auto simp: convert_images_def Let_def split: prod.splits)
  from sorted_distinct_split[OF get_image_files_sorted get_image_files_distinct f]
  obtain pre post where split: "?files = pre @ f # post" and after: "\<forall>g \<in> set post. f < g"
    by blast
  have sub: "set pre \<subseteq> set ?files" "set post \<subseteq> set ?files"
    unfolding split by auto
  obtain fs_a s_a k_a where pre: "convert_loop lib output_folder output_format q ps pre (fs2, 0, 0)
      = (fs_a, s_a, k_a)"
    by (metis prod_cases3)
  from convert_loop_frame[OF pre] have frame:
    "\<And>p. p \<notin> ?tgt ` set pre \<Longrightarrow> map_of fs_a p = map_of fs2 p"
    "\<And>p. writable fs2 p \<Longrightarrow> writable fs_a p"
    by blast+
  from library_save_succeeded[OF ok[unfolded convert_one_eq]] obtain bytes where
    out_f: "?out fs2 f = Saved bytes" and wr: "write_file fs2 ?T bytes = Inr fs_f"
    by blast
  from wr have w2: "writable fs2 ?T" using write_file_writable by blast
  then have T: "?T \<noteq> []" "last ?T \<noteq> sep" by (simp_all add: writable_def)
  from w2 have "writable fs_a ?T" by (rule frame(2))
  then obtain fs_b where wr_a: "write_file fs_a ?T bytes = Inr fs_b"
    using write_file_writable by blast
  have clean: "g \<noteq> [] \<and> last g \<noteq> sep" if "g \<in> set ?files" for g
    using discovered_clean[OF that] .
  have not_target: "g \<notin> ?tgt ` set ?files" if "g \<in> set ?files" for g
    using apart that by blast
  have read_a: "read_file fs_a g = read_file fs2 g" if "g \<in> set ?files" for g
  proof -
    from not_target[OF that] sub(1) have "g \<notin> ?tgt ` set pre" by blast
    from frame(1)[OF this] show ?thesis
      using read_file_map_of[of fs_a g fs2] clean[OF that] by (simp add: rstrip_sep_id)
  qed
  from out_f read_a[OF f] have "?out fs_a f = Saved bytes" by simp
  with library_save_saved[OF wr_a]
  have one: "convert_one lib output_folder output_format q ps fs_a f = (fs_b, True)"
    unfolding convert_one_eq by simp
  have "convert_loop lib output_folder output_format q ps ?files (fs2, 0, 0)
        = convert_loop lib output_folder output_format q ps post (fs_b, s_a + 1, k_a)"
    unfolding split convert_loop_append pre using one by simp
  with loop have rest: "convert_loop lib output_folder output_format q ps post (fs_b, s_a + 1, k_a)
      = (fs', s, k)"
    by simp
  have map_b: "map_of fs_b = (map_of fs_a)(?T \<mapsto> File bytes False)"
    using write_file_map_of(1)[OF wr_a] .
  have map_f: "map_of fs_f = (map_of fs2)(?T \<mapsto> File bytes False)"
    using write_file_map_of(1)[OF wr] .
  have read_b: "read_file fs_b g = read_file fs2 g" if "g \<in> set ?files" for g
  proof -
    from not_target[OF that] f have "g \<noteq> ?T" by blast
    with map_b have "map_of fs_b g = map_of fs_a g" by simp
    then have "read_file fs_b g = read_file fs_a g"
      using read_file_map_of[of fs_b g fs_a] clean[OF that] by (simp add: rstrip_sep_id)
    with read_a[OF that] show ?thesis by simp
  qed
  have read_f: "read_file fs_f g = read_file fs2 g" if "g \<in> set ?files" for g
  proof -
    from not_target[OF that] f have "g \<noteq> ?T" by blast
    with map_f have "map_of fs_f g = map_of fs2 g" by simp
    then show ?thesis
      using read_file_map_of[of fs_f g fs2] clean[OF that] by (simp add: rstrip_sep_id)
  qed
  have harmless: "node_after ?c (map_of fs_b ?T) (?out fs_b g) = map_of fs_b ?T"
    if g: "g \<in> set post" and t: "?tgt g = ?T" for g
  proof -
    from g sub(2) have gf: "g \<in> set ?files" by blast
    from t have "base_name g = base_name f" by (simp add: target_path_inj)
    with later gf after g
    have "convert_one lib output_folder output_format q ps fs_f g = (fs_f, False)"
      by blast
    from library_save_there[OF this[unfolded convert_one_eq]] t T
    have "map_of fs_f ?T = node_after ?c (map_of fs_f ?T) (?out fs_f g)" by simp
    moreover have "map_of fs_f ?T = map_of fs_b ?T" by (simp add: map_f map_b)
    moreover have "?out fs_f g = ?out fs_b g" by (simp add: read_f[OF gf] read_b[OF gf])
    ultimately show ?thesis by simp
  qed
  have "map_of fs' ?T = map_of fs_b ?T"
  proof (rule convert_loop_keeps_target[OF rest T])
    show "\<forall>g \<in> set post. g \<noteq> [] \<and> last g \<noteq> sep" using clean sub(2) by blast
    show "\<forall>g \<in> set post. \<forall>h \<in> set post. ?tgt h \<noteq> g" using apart sub(2) by blast
    show "\<forall>g \<in> set post. ?tgt g = ?T \<longrightarrow>
            node_after ?c (map_of fs_b ?T) (?out fs_b g) = map_of fs_b ?T"
      using harmless by blast
  qed
  with map_b have final: "map_of fs' ?T = Some (File bytes False)" by simp
  from read_file_written[OF final T] have 1: "read_file fs' ?T = Inr bytes" .
  from write_file_read[OF wr] have 2: "read_file fs_f ?T = Inr bytes" .
  from 1 2 show ?thesis by simp
qed

theorem collision_last_success_wins_witness:
  "convert_images example_library example_batch ''src'' ''out'' ''png'' 95 ''letter'' True
     = Inr (example_converted, \<lparr>total = 5, successful = 4, failed = 1\<rparr>)
   \<and> read_file example_converted (target_path ''out'' ''png'' ''src/a.heic'') = Inr [10, 20, 30, 0]
   \<and> target_path ''out'' ''png'' ''src/a.heic'' = ''out/a.png''"
proof -
  have run: "convert_images example_library example_batch ''src'' ''out'' ''png'' 95 ''letter'' True
     = Inr (example_converted, \<lparr>total = 5, successful = 4, failed = 1\<rparr>)"
    by code_simp
  have prep: "prepare_output example_batch ''out'' True = Inr example_prepared"
    by code_simp
  have files: "get_image_files example_library example_prepared ''src''
      = [''src/a.heic'', ''src/a.png'', ''src/b.jpg'', ''src/c.heic'', ''src/c.png'']"
    by code_simp
  have apart: "\<forall>g \<in> set (get_image_files example_library example_prepared ''src'').
                 \<forall>h \<in> set (get_image_files example_library example_prepared ''src'').
                   target_path ''out'' ''png'' h \<noteq> g"
    unfolding files by code_simp
  have f: "''src/a.heic'' \<in> set (get_image_files example_library example_prepared ''src'')"
    unfolding files by simp
  have ok: "convert_one example_library ''out'' ''png'' 95 ''letter'' example_prepared ''src/a.heic''
      = (example_prepared @ [(''out/a.png'', File [10, 20, 30, 0] False)], True)"
    by code_simp
  have later: "\<forall>g \<in> set (get_image_files example_library example_prepared ''src'').
                 ''src/a.heic'' < g \<and> base_name g = base_name ''src/a.heic'' \<longrightarrow>
                 convert_one example_library ''out'' ''png'' 95 ''letter''
                   (example_prepared @ [(''out/a.png'', File [10, 20, 30, 0] False)]) g
                 = (example_prepared @ [(''out/a.png'', File [10, 20, 30, 0] False)], False)"
    unfolding files by code_simp
  have t: "target_path ''out'' ''png'' ''src/a.heic'' = ''out/a.png''"
    by code_simp
  have rd: "read_file (example_prepared @ [(''out/a.png'', File [10, 20, 30, 0] False)]) ''out/a.png''
      = Inr [10, 20, 30, 0]"
    by code_simp
  from collision_last_success_wins[OF run prep apart f ok later] t rd
  have "read_file example_converted (target_path ''out'' ''png'' ''src/a.heic'') = Inr [10, 20, 30, 0]"
    by simp
  with run t show ?thesis by simp
qed

text \<open>
  C4 as stated fails when the source that sorts last cannot be converted: \<^verbatim>\<open>a.heic\<close> and
  \<^verbatim>\<open>a.png\<close> share the base name, \<^verbatim>\<open>src/a.png\<close> sorts last and is not an image, so its job
  fails before anything is saved, and the output file \<^verbatim>\<open>out/a.png\<close> keeps the result of
  \<^verbatim>\<open>src/a.heic\<close>.
\<close>

theorem collision_last_source_failed:
  "convert_images example_library example_batch ''src'' ''out'' ''png'' 95 ''letter'' True
     = Inr (example_converted, \<lparr>total = 5, successful = 4, failed = 1\<rparr>)
   \<and> get_image_files example_library example_prepared ''src''
     = [''src/a.heic'', ''src/a.png'', ''src/b.jpg'', ''src/c.heic'', ''src/c.png'']
   \<and> base_name ''src/a.heic'' = base_name ''src/a.png'' \<and> ''src/a.heic'' < ''src/a.png''
   \<and> convert_one example_library ''out'' ''png'' 95 ''letter'' example_prepared ''src/a.png''
     = (example_prepared, False)
   \<and> convert_one example_library ''out'' ''png'' 95 ''letter'' example_prepared ''src/a.heic''
     = (example_prepared @ [(''out/a.png'', File [10, 20, 30, 0] False)], True)
   \<and> read_file example_converted ''out/a.png'' = Inr [10, 20, 30, 0]"
  by code_simp

text \<open>
  A later job that fails inside the saving call is outside the theorem: \<^verbatim>\<open>img.save\<close> has
  opened the shared output path by then, and the result of the earlier job is gone.
\<close>

lemma failed_save_truncates:
  "convert_images example_library example_cmyk ''src'' ''out'' ''png'' 95 ''letter'' True
     = Inr (example_cmyk @ [(''out/a.png'', File [] False)],
            \<lparr>total = 2, successful = 1, failed = 1\<rparr>)
   \<and> convert_one example_library ''out'' ''png'' 95 ''letter'' example_cmyk ''src/a.heic''
     = (example_cmyk @ [(''out/a.png'', File [10, 20, 30, 0] False)], True)
   \<and> convert_one example_library ''out'' ''png'' 95 ''letter''
       (example_cmyk @ [(''out/a.png'', File [10, 20, 30, 0] False)]) ''src/a.jpg''
     = (example_cmyk @ [(''out/a.png'', File [] False)], False)"
  by code_simp

end
